theory Spec2Isabelle
  imports Main "HOL-Library.AList"
begin

section \<open>Go values used by the webhook\<close>

text \<open>
  A Go \<^verbatim>\<open>map[string]string\<close> is an association list with distinct keys; the order
  of the list is the order in which a \<^verbatim>\<open>range\<close> loop happens to visit the entries.
  Reading an absent key gives the empty string, as in Go.
\<close>

type_synonym string_map = "(string \<times> string) list"

definition goGet :: "string_map \<Rightarrow> string \<Rightarrow> string" where
  "goGet m k = (case map_of m k of None \<Rightarrow> '''' | Some v \<Rightarrow> v)"

text \<open>
  A Go slice is a window of length \<open>slen\<close> on a backing array \<open>arr\<close> (taken from the
  slice's first element, so that the capacity is \<open>length arr\<close>).  The cells between the
  length and the capacity are stale but present, and \<^verbatim>\<open>s[:j]\<close> can make them visible
  again.
\<close>

record 'a slice =
  arr :: "'a list"
  slen :: nat

definition elems :: "'a slice \<Rightarrow> 'a list" where
  "elems s = take (slen s) (arr s)"

definition cap :: "'a slice \<Rightarrow> nat" where
  "cap s = length (arr s)"

definition mkSlice :: "'a list \<Rightarrow> 'a slice" where
  "mkSlice xs = \<lparr>arr = xs, slen = length xs\<rparr>"

text \<open>\<^verbatim>\<open>s[:j]\<close>: panics unless \<open>0 \<le> j \<le> cap s\<close>.\<close>

definition sliceUpto :: "'a slice \<Rightarrow> int \<Rightarrow> 'a slice option" where
  "sliceUpto s j = (if 0 \<le> j \<and> j \<le> int (cap s) then Some (s\<lparr>slen := nat j\<rparr>) else None)"

text \<open>
  \<^verbatim>\<open>s[i:]\<close>: panics unless \<open>0 \<le> i \<le> len s\<close>.  It is only ever the second
  operand of \<^verbatim>\<open>append\<close>, which copies its elements, so the elements are all that is kept.
\<close>

definition sliceOnward :: "'a slice \<Rightarrow> int \<Rightarrow> 'a list option" where
  "sliceOnward s i = (if 0 \<le> i \<and> i \<le> int (slen s) then Some (drop (nat i) (elems s)) else None)"

section \<open>Kubernetes objects\<close>

record Toleration =
  Key :: string
  Operator :: string
  Value :: string
  Effect :: string
  TolerationSeconds :: "int option"

record NodeSelectorRequirement =
  ReqKey :: string
  ReqOperator :: string
  ReqValues :: "string list"

record NodeSelectorTerm =
  MatchExpressions :: "NodeSelectorRequirement slice"
  MatchFields :: "NodeSelectorRequirement slice"

record NodeSelectorT =
  NodeSelectorTerms :: "NodeSelectorTerm list"

record PreferredSchedulingTerm =
  Weight :: int
  Preference :: NodeSelectorTerm

record NodeAffinityT =
  RequiredDuringSchedulingIgnoredDuringExecution :: "NodeSelectorT option"
  PreferredDuringSchedulingIgnoredDuringExecution :: "PreferredSchedulingTerm list"

text \<open>
  Pod affinity and pod anti-affinity are never inspected by the webhook; their terms are
  kept as a topology key with the namespaces they apply to.
\<close>

record PodAffinityTerm =
  TopologyKey :: string
  Namespaces :: "string list"

record AffinityT =
  NodeAffinity :: "NodeAffinityT option"
  PodAffinity :: "PodAffinityTerm list option"
  PodAntiAffinity :: "PodAffinityTerm list option"

record PersistentVolumeClaimVolumeSource =
  ClaimName :: string

record Volume =
  VolumeName :: string
  PersistentVolumeClaim :: "PersistentVolumeClaimVolumeSource option"

record PodSpec =
  NodeName :: string
  NodeSelector :: "string_map option"
  Affinity :: "AffinityT option"
  Tolerations :: "Toleration list option"
  Volumes :: "Volume list option"

record OwnerReference =
  UID :: string

record Pod =
  Name :: string
  Namespace :: string
  Labels :: "string_map option"
  Annotations :: "string_map option"
  OwnerReferences :: "OwnerReference list"
  Spec :: PodSpec

record PersistentVolumeClaimT =
  ClaimAnnotations :: "string_map option"

section \<open>Constants of the util package and of the Kubernetes API\<close>

text \<open>
  Modelled from the spec: the string constants of package \<^verbatim>\<open>util\<close> are not in
  \<^verbatim>\<open>hook.go\<close>.  The spec calls them the taint keys for not-ready and unreachable, the
  annotation keys for the selected node and for the backup constraints, the descheduler
  marker and the virtual-pod marker.  The values below are the ones Kubernetes and the
  overlay use; the proofs depend only on the two taint keys being different (which the map
  literal \<^verbatim>\<open>desiredMap\<close> needs in order to compile).
\<close>

definition TaintNodeNotReady :: string where
  "TaintNodeNotReady = ''node.kubernetes.io/not-ready''"

definition TaintNodeUnreachable :: string where
  "TaintNodeUnreachable = ''node.kubernetes.io/unreachable''"

definition SelectedNodeKey :: string where
  "SelectedNodeKey = ''volume.kubernetes.io/selected-node''"

definition SelectorKey :: string where
  "SelectorKey = ''clusterSelector''"

definition CreatedbyDescheduler :: string where
  "CreatedbyDescheduler = ''create-by-descheduler''"

definition VirtualPodLabel :: string where
  "VirtualPodLabel = ''virtual-pod''"

definition TolerationOpExists :: string where
  "TolerationOpExists = ''Exists''"

definition TaintEffectNoExecute :: string where
  "TaintEffectNoExecute = ''NoExecute''"

definition zeroToleration :: Toleration where
  "zeroToleration = \<lparr>Key = '''', Operator = '''', Value = '''', Effect = '''', TolerationSeconds = None\<rparr>"

definition desiredMap :: "(string \<times> Toleration) list" where
  "desiredMap =
     [(TaintNodeNotReady,
         \<lparr>Key = TaintNodeNotReady, Operator = TolerationOpExists, Value = '''',
          Effect = TaintEffectNoExecute, TolerationSeconds = None\<rparr>),
      (TaintNodeUnreachable,
         \<lparr>Key = TaintNodeUnreachable, Operator = TolerationOpExists, Value = '''',
          Effect = TaintEffectNoExecute, TolerationSeconds = None\<rparr>)]"

text \<open>\<^verbatim>\<open>desiredMap[k]\<close>: the zero toleration when the key is absent.\<close>

definition desiredMapGet :: "string \<Rightarrow> Toleration" where
  "desiredMapGet k = (case map_of desiredMap k of None \<Rightarrow> zeroToleration | Some d \<Rightarrow> d)"

section \<open>Toleration normalization\<close>

definition addDefaultPodTolerations :: "Toleration list \<Rightarrow> bool \<Rightarrow> bool \<Rightarrow> Toleration list" where
  "addDefaultPodTolerations tolerations notReady unSchedulable =
     (let tolerations1 = (if \<not> notReady then tolerations @ [desiredMapGet TaintNodeNotReady]
                          else tolerations);
          tolerations2 = (if \<not> unSchedulable then tolerations1 @ [desiredMapGet TaintNodeUnreachable]
                          else tolerations1)
      in tolerations2)"

text \<open>
  The loop of \<^verbatim>\<open>getPodTolerations\<close>, with its three variables as the state: the list
  built so far and the two flags.
\<close>

fun tolerationLoop ::
  "Toleration list \<Rightarrow> Toleration list \<times> bool \<times> bool \<Rightarrow> Toleration list \<times> bool \<times> bool" where
  "tolerationLoop [] st = st"
| "tolerationLoop (toleration # rest) (tolerations, notReady, unSchedulable) =
     (let notReady1 = (if Key toleration = TaintNodeNotReady then True else notReady);
          unSchedulable1 = (if Key toleration = TaintNodeUnreachable then True else unSchedulable)
      in case map_of desiredMap (Key toleration) of
           Some d \<Rightarrow> tolerationLoop rest (tolerations @ [desiredMapGet (Key toleration)], notReady1, unSchedulable1)
         | None \<Rightarrow> tolerationLoop rest (tolerations @ [toleration], notReady1, unSchedulable1))"

text \<open>Ranging over a nil slice runs the body zero times.\<close>

definition rangeList :: "'a list option \<Rightarrow> 'a list" where
  "rangeList xs = (case xs of None \<Rightarrow> [] | Some ys \<Rightarrow> ys)"

definition getPodTolerations :: "Pod \<Rightarrow> Toleration list" where
  "getPodTolerations pod =
     (case tolerationLoop (rangeList (Tolerations (Spec pod))) ([], False, False) of
        (tolerations, notReady, unSchedulable) \<Rightarrow>
          addDefaultPodTolerations tolerations notReady unSchedulable)"

text \<open>The canonical default of the spec: operator Exists, effect NoExecute.\<close>

definition canonicalDefault :: "string \<Rightarrow> Toleration" where
  "canonicalDefault k =
     \<lparr>Key = k, Operator = ''Exists'', Value = '''', Effect = ''NoExecute'', TolerationSeconds = None\<rparr>"

text \<open>
  The normalization in the words of the spec: well-known entries replaced where they stand,
  the others unchanged, and the defaults of the keys not seen appended, not-ready first.
\<close>

definition wellKnown :: "string \<Rightarrow> bool" where
  "wellKnown k = (k = TaintNodeNotReady \<or> k = TaintNodeUnreachable)"

definition normalizeSpec :: "Toleration list \<Rightarrow> Toleration list" where
  "normalizeSpec ts =
     map (\<lambda>t. if wellKnown (Key t) then canonicalDefault (Key t) else t) ts
     @ (if TaintNodeNotReady \<in> set (map Key ts) then [] else [canonicalDefault TaintNodeNotReady])
     @ (if TaintNodeUnreachable \<in> set (map Key ts) then [] else [canonicalDefault TaintNodeUnreachable])"

definition countKey :: "string \<Rightarrow> Toleration list \<Rightarrow> nat" where
  "countKey k ts = length (filter (\<lambda>t. Key t = k) ts)"

section \<open>Properties of toleration normalization\<close>

lemma taint_keys_distinct: "TaintNodeNotReady \<noteq> TaintNodeUnreachable"
  by (simp add: TaintNodeNotReady_def TaintNodeUnreachable_def)

lemma map_of_desiredMap:
  "map_of desiredMap k = (if wellKnown k then Some (canonicalDefault k) else None)"
  using taint_keys_distinct
  by (auto simp: desiredMap_def wellKnown_def canonicalDefault_def TolerationOpExists_def
      TaintEffectNoExecute_def)

lemma desiredMapGet_wellKnown: "wellKnown k \<Longrightarrow> desiredMapGet k = canonicalDefault k"
  by (simp add: desiredMapGet_def map_of_desiredMap)

lemma tolerationLoop_eq:
  "tolerationLoop ts (acc, nr, us) =
     (acc @ map (\<lambda>t. if wellKnown (Key t) then canonicalDefault (Key t) else t) ts,
      nr \<or> TaintNodeNotReady \<in> set (map Key ts),
      us \<or> TaintNodeUnreachable \<in> set (map Key ts))"
proof (induction ts arbitrary: acc nr us)
  case Nil
  show ?case by simp
next
  case (Cons t ts)
  show ?case
  proof (cases "wellKnown (Key t)")
    case True
    then show ?thesis
      using Cons.IH by (auto simp: map_of_desiredMap desiredMapGet_wellKnown)
  next
    case False
    then show ?thesis
      using Cons.IH by (auto simp: map_of_desiredMap wellKnown_def)
  qed
qed

lemma getPodTolerations_normalizeSpec:
  "getPodTolerations pod = normalizeSpec (rangeList (Tolerations (Spec pod)))"
  by (simp add: getPodTolerations_def tolerationLoop_eq addDefaultPodTolerations_def
      normalizeSpec_def desiredMapGet_wellKnown wellKnown_def)

lemma Key_normalized [simp]:
  "Key (if wellKnown (Key t) then canonicalDefault (Key t) else t) = Key t"
  by (simp add: canonicalDefault_def)

lemma countKey_append: "countKey k (xs @ ys) = countKey k xs + countKey k ys"
  by (simp add: countKey_def)

lemma countKey_map_normalized:
  "countKey k (map (\<lambda>t. if wellKnown (Key t) then canonicalDefault (Key t) else t) ts) = countKey k ts"
  by (induction ts) (auto simp: countKey_def canonicalDefault_def)

lemma countKey_zero_iff: "countKey k ts = 0 \<longleftrightarrow> k \<notin> set (map Key ts)"
  by (induction ts) (auto simp: countKey_def)

lemma countKey_Nil [simp]: "countKey k [] = 0"
  by (simp add: countKey_def)

lemma countKey_single: "countKey k [canonicalDefault k'] = (if k' = k then 1 else 0)"
  by (simp add: countKey_def canonicalDefault_def)

lemma countKey_normalizeSpec:
  assumes "wellKnown k"
  shows "countKey k (normalizeSpec ts) = max 1 (countKey k ts)"
proof -
  have k: "k = TaintNodeNotReady \<or> k = TaintNodeUnreachable"
    using assms by (simp add: wellKnown_def)
  show ?thesis
  proof (cases "k \<in> set (map Key ts)")
    case True
    then have "countKey k ts \<noteq> 0" by (simp add: countKey_zero_iff)
    then show ?thesis
      using k True taint_keys_distinct
      by (auto simp: normalizeSpec_def countKey_append countKey_map_normalized countKey_single)
  next
    case False
    then have "countKey k ts = 0" by (simp add: countKey_zero_iff)
    then show ?thesis
      using k False taint_keys_distinct
      by (auto simp: normalizeSpec_def countKey_append countKey_map_normalized countKey_single)
  qed
qed

lemma normalizeSpec_entries_canonical:
  assumes "wellKnown k" "t \<in> set (normalizeSpec ts)" "Key t = k"
  shows "t = canonicalDefault k"
  using assms by (auto simp: normalizeSpec_def canonicalDefault_def wellKnown_def split: if_splits)

text \<open>Concrete pods and tolerations, for evaluating the functions.\<close>

definition podWith :: "Toleration list option \<Rightarrow> Pod" where
  "podWith ts =
     \<lparr>Name = ''web-0'', Namespace = ''default'', Labels = None, Annotations = None,
      OwnerReferences = [],
      Spec = \<lparr>NodeName = '''', NodeSelector = None, Affinity = None, Tolerations = ts,
              Volumes = None\<rparr>\<rparr>"

definition tol :: "string \<Rightarrow> string \<Rightarrow> string \<Rightarrow> Toleration" where
  "tol k op e = \<lparr>Key = k, Operator = op, Value = '''', Effect = e, TolerationSeconds = None\<rparr>"

text \<open>
  C6: normalization walks the toleration list once, in order.  An entry whose key is one of
  the two well-known taint keys is replaced where it stands by the canonical default of that
  key, whatever operator and effect the caller wrote; every other entry stays as it is and
  where it is; and for each well-known key that was not seen the canonical default is
  appended at the end, not-ready before unreachable.
\<close>

theorem C6_normalization_walk:
  "getPodTolerations pod =
     map (\<lambda>t. if Key t = TaintNodeNotReady \<or> Key t = TaintNodeUnreachable
               then canonicalDefault (Key t) else t)
         (rangeList (Tolerations (Spec pod)))
     @ (if TaintNodeNotReady \<in> set (map Key (rangeList (Tolerations (Spec pod)))) then []
        else [canonicalDefault TaintNodeNotReady])
     @ (if TaintNodeUnreachable \<in> set (map Key (rangeList (Tolerations (Spec pod)))) then []
        else [canonicalDefault TaintNodeUnreachable])"
  by (simp add: getPodTolerations_normalizeSpec normalizeSpec_def wellKnown_def)

theorem C6_normalization_walk_witness:
  "getPodTolerations (podWith (Some [tol ''gpu'' ''Exists'' ''NoSchedule'',
                                     tol TaintNodeUnreachable ''Equal'' ''NoSchedule'']))
   = [tol ''gpu'' ''Exists'' ''NoSchedule'',
      canonicalDefault TaintNodeUnreachable,
      canonicalDefault TaintNodeNotReady]"
  using C6_normalization_walk [of "podWith (Some [tol ''gpu'' ''Exists'' ''NoSchedule'',
                                     tol TaintNodeUnreachable ''Equal'' ''NoSchedule''])"]
  by (simp add: podWith_def tol_def rangeList_def TaintNodeNotReady_def TaintNodeUnreachable_def)

text \<open>
  C2 (amended): after normalization, every entry whose key is a well-known taint key is the
  canonical default of that key (operator Exists, effect NoExecute), and the list holds as
  many entries with that key as the caller supplied, or one when the caller supplied none.
  So there is exactly one entry per well-known key whenever the caller supplied at most one.
\<close>

theorem C2_entries_per_key:
  "wellKnown k \<Longrightarrow>
     countKey k (getPodTolerations pod) = max 1 (countKey k (rangeList (Tolerations (Spec pod))))
     \<and> (\<forall>t \<in> set (getPodTolerations pod). Key t = k \<longrightarrow> t = canonicalDefault k)"
  by (simp add: getPodTolerations_normalizeSpec countKey_normalizeSpec normalizeSpec_entries_canonical)

theorem C2_entries_per_key_witness:
  "wellKnown TaintNodeUnreachable
   \<and> countKey TaintNodeUnreachable
         (getPodTolerations (podWith (Some [tol TaintNodeUnreachable ''Equal'' ''NoSchedule''])))
       = 1
   \<and> filter (\<lambda>t. Key t = TaintNodeUnreachable)
         (getPodTolerations (podWith (Some [tol TaintNodeUnreachable ''Equal'' ''NoSchedule''])))
       = [canonicalDefault TaintNodeUnreachable]"
proof -
  have w: "wellKnown TaintNodeUnreachable" by (simp add: wellKnown_def)
  have c: "countKey TaintNodeUnreachable
             (rangeList (Tolerations (Spec (podWith (Some [tol TaintNodeUnreachable ''Equal'' ''NoSchedule'']))))) = 1"
    by (simp add: podWith_def tol_def rangeList_def countKey_def)
  have "\<And>ts. length (filter (\<lambda>t. Key t = TaintNodeUnreachable) ts) = 1 \<Longrightarrow>
          (\<forall>t \<in> set ts. Key t = TaintNodeUnreachable \<longrightarrow> t = canonicalDefault TaintNodeUnreachable) \<Longrightarrow>
          filter (\<lambda>t. Key t = TaintNodeUnreachable) ts = [canonicalDefault TaintNodeUnreachable]"
  proof -
    fix ts :: "Toleration list"
    assume l: "length (filter (\<lambda>t. Key t = TaintNodeUnreachable) ts) = 1"
      and a: "\<forall>t \<in> set ts. Key t = TaintNodeUnreachable \<longrightarrow> t = canonicalDefault TaintNodeUnreachable"
    from l obtain x where x: "filter (\<lambda>t. Key t = TaintNodeUnreachable) ts = [x]"
      by (cases "filter (\<lambda>t. Key t = TaintNodeUnreachable) ts") auto
    then have "x \<in> set (filter (\<lambda>t. Key t = TaintNodeUnreachable) ts)" by simp
    then have "x = canonicalDefault TaintNodeUnreachable" using a by simp
    with x show "filter (\<lambda>t. Key t = TaintNodeUnreachable) ts = [canonicalDefault TaintNodeUnreachable]"
      by simp
  qed
  then show ?thesis
    using w c C2_entries_per_key [OF w, of "podWith (Some [tol TaintNodeUnreachable ''Equal'' ''NoSchedule''])"]
    by (simp add: countKey_def)
qed

text \<open>
  C2 as stated fails: a pod that already carries two not-ready tolerations keeps two entries
  with that key, so there is not exactly one.
\<close>

theorem C2_counterexample:
  "countKey TaintNodeNotReady
     (getPodTolerations (podWith (Some [tol TaintNodeNotReady ''Exists'' ''NoExecute'',
                                        tol TaintNodeNotReady ''Exists'' ''NoSchedule''])))
   = 2"
  by (simp add: getPodTolerations_def podWith_def tol_def rangeList_def desiredMap_def
      desiredMapGet_def addDefaultPodTolerations_def countKey_def TaintNodeNotReady_def
      TaintNodeUnreachable_def)

section \<open>Node-selector rewrite\<close>

text \<open>
  The ignore list becomes the map \<^verbatim>\<open>labelMap[v] = v\<close>, and a key counts as ignored
  when \<^verbatim>\<open>labelMap[k] != ""\<close>.
\<close>

definition buildLabelMap :: "string list \<Rightarrow> string_map" where
  "buildLabelMap ignoreLabels = foldl (\<lambda>labelMap v. AList.update v v labelMap) [] ignoreLabels"

text \<open>
  The second \<^verbatim>\<open>range\<close> loop of \<^verbatim>\<open>injectNodeSelector\<close>.  It visits the entries the
  selector had on entry; the only entry it deletes is the one it is visiting.  The state is
  the live selector (the caller's map, changed in place) and \<^verbatim>\<open>finalNodeSelector\<close>.
  The first loop fills \<^verbatim>\<open>nodeSelectorBackup\<close>, which is never read again.
\<close>

fun selectorLoop ::
  "string_map \<Rightarrow> (string \<times> string) list \<Rightarrow> string_map \<times> string_map \<Rightarrow> string_map \<times> string_map" where
  "selectorLoop labelMap [] st = st"
| "selectorLoop labelMap ((k, v) # rest) (nodeSelector, finalNodeSelector) =
     (if goGet labelMap k \<noteq> '''' then selectorLoop labelMap rest (nodeSelector, finalNodeSelector)
      else selectorLoop labelMap rest (AList.delete k nodeSelector, AList.update k v finalNodeSelector))"

text \<open>The result is the pair of the live selector after the call and the returned map.\<close>

definition injectNodeSelector :: "string_map \<Rightarrow> string list \<Rightarrow> string_map \<times> string_map" where
  "injectNodeSelector nodeSelector ignoreLabels =
     selectorLoop (buildLabelMap ignoreLabels) nodeSelector (nodeSelector, [])"

text \<open>The keys that stay on the live selector: those of the ignore list, the empty key apart.\<close>

definition kept :: "string list \<Rightarrow> string \<Rightarrow> bool" where
  "kept ignoreLabels k = (k \<in> set ignoreLabels \<and> k \<noteq> '''')"

lemma map_of_foldl_update:
  "map_of (foldl (\<lambda>m v. AList.update v v m) m0 ks) k =
     (if k \<in> set ks then Some k else map_of m0 k)"
  by (induction ks arbitrary: m0) (auto simp: update_conv')

lemma goGet_buildLabelMap: "goGet (buildLabelMap ks) k = '''' \<longleftrightarrow> \<not> kept ks k"
  by (simp add: goGet_def buildLabelMap_def map_of_foldl_update kept_def)

lemma selectorLoop_live:
  "fst (selectorLoop lm es (ns, fin)) =
     filter (\<lambda>(k, v). goGet lm k \<noteq> '''' \<or> k \<notin> fst ` set es) ns"
proof (induction es arbitrary: ns fin)
  case Nil
  show ?case by simp
next
  case (Cons e es)
  obtain k v where e: "e = (k, v)" by (cases e)
  show ?case
    unfolding e using Cons.IH
    by (auto simp: AList.delete_eq intro!: filter_cong)
qed

lemma selectorLoop_final:
  "distinct (map fst es) \<Longrightarrow>
   map_of (snd (selectorLoop lm es (ns, fin))) k =
     (if goGet lm k = '''' \<and> k \<in> fst ` set es then map_of es k else map_of fin k)"
proof (induction es arbitrary: ns fin)
  case Nil
  show ?case by simp
next
  case (Cons e es)
  obtain k' v where e: "e = (k', v)" by (cases e)
  show ?case
    using Cons.prems Cons.IH unfolding e
    by (auto simp: update_conv' image_iff)
qed

lemma selectorLoop_all_kept:
  "\<forall>k \<in> fst ` set es. goGet lm k \<noteq> '''' \<Longrightarrow> selectorLoop lm es st = st"
  by (induction es arbitrary: st) (auto split: prod.splits)

lemma injectNodeSelector_live:
  "fst (injectNodeSelector S I) = filter (\<lambda>(k, v). kept I k) S"
  by (force simp: injectNodeSelector_def selectorLoop_live goGet_buildLabelMap intro!: filter_cong)

lemma injectNodeSelector_final:
  assumes "distinct (map fst S)"
  shows "map_of (snd (injectNodeSelector S I)) = map_of S |` {k. \<not> kept I k}"
proof (rule ext)
  fix k
  have "map_of (snd (injectNodeSelector S I)) k =
          (if \<not> kept I k \<and> k \<in> fst ` set S then map_of S k else None)"
    using selectorLoop_final [OF assms, of "buildLabelMap I" S "[]" k]
    by (simp add: injectNodeSelector_def goGet_buildLabelMap)
  also have "\<dots> = (map_of S |` {k. \<not> kept I k}) k"
    by (auto simp: restrict_map_def map_of_eq_None_iff [symmetric])
  finally show "map_of (snd (injectNodeSelector S I)) k = (map_of S |` {k. \<not> kept I k}) k" .
qed

lemma map_of_filter_keys:
  "map_of (filter (\<lambda>(k, v). P k) S) = map_of S |` {k. P k}"
  by (induction S) (auto simp: restrict_map_def fun_eq_iff)

text \<open>
  C4 (amended): for every node selector S (a map, so with distinct keys) and ignore list I,
  after the rewrite the live selector is S restricted to the non-empty keys of I, the returned
  backup map is S restricted to all other keys (those not in I, and the empty key), and every
  key-value pair of S is in exactly one of the two.
\<close>

theorem C4_partition:
  assumes "distinct (map fst S)" and "injectNodeSelector S I = (live, backup)"
  shows "map_of live = map_of S |` {k. k \<in> set I \<and> k \<noteq> ''''}
       \<and> map_of backup = map_of S |` {k. \<not> (k \<in> set I \<and> k \<noteq> '''')}
       \<and> (\<forall>k v. map_of S k = Some v \<longrightarrow>
             (map_of live k = Some v \<and> map_of backup k = None)
           \<or> (map_of live k = None \<and> map_of backup k = Some v))"
proof -
  have l: "map_of live = map_of S |` {k. kept I k}"
    using injectNodeSelector_live [of S I] assms(2) by (simp add: map_of_filter_keys)
  have b: "map_of backup = map_of S |` {k. \<not> kept I k}"
    using injectNodeSelector_final [OF assms(1), of I] assms(2) by simp
  show ?thesis
    unfolding l b by (auto simp: kept_def restrict_map_def)
qed

theorem C4_partition_witness:
  "map_of [(''gpu'', ''true'')]
     = map_of [(''zone'', ''a''), (''gpu'', ''true'')] |` {k. k \<in> set [''gpu''] \<and> k \<noteq> ''''}
   \<and> map_of [(''zone'', ''a'')]
     = map_of [(''zone'', ''a''), (''gpu'', ''true'')] |` {k. \<not> (k \<in> set [''gpu''] \<and> k \<noteq> '''')}"
proof -
  have d: "distinct (map fst [(''zone'', ''a''), (''gpu'', ''true'')])" by simp
  have r: "injectNodeSelector [(''zone'', ''a''), (''gpu'', ''true'')] [''gpu'']
             = ([(''gpu'', ''true'')], [(''zone'', ''a'')])"
    by (simp add: injectNodeSelector_def buildLabelMap_def goGet_def)
  show ?thesis
    using C4_partition [OF d r] by blast
qed

text \<open>
  C4 as stated fails for the empty key: listed in the ignore set, it is still moved to the
  backup, because \<^verbatim>\<open>labelMap[""]\<close> is the empty string.
\<close>

theorem C4_counterexample:
  "map_of (fst (injectNodeSelector [('''', ''a'')] [''''])) \<noteq> map_of [('''', ''a'')] |` set ['''']"
  by (simp add: injectNodeSelector_def buildLabelMap_def goGet_def fun_eq_iff)

section \<open>Node-affinity rewrite\<close>

text \<open>
  A call either returns or stops in a run-time panic (a slice bound out of range).  Both
  carry the state of the objects the call works on, as it is at that moment.
\<close>

datatype 'a outcome = Returned 'a | Panicked 'a

fun outcomeState :: "'a outcome \<Rightarrow> 'a" where
  "outcomeState (Returned s) = s"
| "outcomeState (Panicked s) = s"

definition zeroRequirement :: NodeSelectorRequirement where
  "zeroRequirement = \<lparr>ReqKey = '''', ReqOperator = '''', ReqValues = []\<rparr>"

text \<open>
  \<^verbatim>\<open>append(a, b...)\<close>: when the result fits the capacity of \<open>a\<close> it is written into the
  backing array of \<open>a\<close>, after the first \<open>slen a\<close> cells; otherwise a new array is
  allocated, whose capacity the Go runtime chooses (\<open>grow\<close>, from the old capacity and the
  length needed) and whose spare cells hold the zero value.
\<close>

definition appendSlice ::
  "(nat \<Rightarrow> nat \<Rightarrow> nat) \<Rightarrow> NodeSelectorRequirement slice \<Rightarrow> NodeSelectorRequirement list
     \<Rightarrow> NodeSelectorRequirement slice" where
  "appendSlice grow a b =
     (let n = slen a + length b in
      if n \<le> cap a
      then \<lparr>arr = take (slen a) (arr a) @ b @ drop n (arr a), slen = n\<rparr>
      else \<lparr>arr = take (slen a) (arr a) @ b @ replicate (grow (cap a) n - n) zeroRequirement,
            slen = n\<rparr>)"

text \<open>
  The statement \<^verbatim>\<open>s = append(s[:j], s[i:]...)\<close> on a live slice; \<open>None\<close> is the panic of
  one of the two slice expressions, raised before anything is written.
\<close>

definition removeLive ::
  "(nat \<Rightarrow> nat \<Rightarrow> nat) \<Rightarrow> NodeSelectorRequirement slice \<Rightarrow> int \<Rightarrow> int
     \<Rightarrow> NodeSelectorRequirement slice option" where
  "removeLive grow s j i =
     (case sliceUpto s j of
        None \<Rightarrow> None
      | Some a \<Rightarrow> (case sliceOnward s i of
                    None \<Rightarrow> None
                  | Some b \<Rightarrow> Some (appendSlice grow a b)))"

text \<open>
  The loop over the match expressions of one term.  It ranges over the deep copy
  (\<open>meIdx\<close>, \<open>me\<close>) and edits the live slice; the state is the live slice, \<^verbatim>\<open>mes\<close> and
  \<^verbatim>\<open>mesDeleteCount\<close>.
\<close>

fun meLoop ::
  "(nat \<Rightarrow> nat \<Rightarrow> nat) \<Rightarrow> string_map \<Rightarrow> (nat \<times> NodeSelectorRequirement) list
     \<Rightarrow> NodeSelectorRequirement slice \<times> NodeSelectorRequirement list \<times> nat
     \<Rightarrow> (NodeSelectorRequirement slice \<times> NodeSelectorRequirement list \<times> nat) outcome" where
  "meLoop grow labelMap [] st = Returned st"
| "meLoop grow labelMap ((meIdx, me) # rest) (live, mes, mesDeleteCount) =
     (if goGet labelMap (ReqKey me) \<noteq> '''' then meLoop grow labelMap rest (live, mes, mesDeleteCount)
      else case removeLive grow live (int meIdx - int mesDeleteCount)
                                     (int meIdx - int mesDeleteCount + 1) of
             None \<Rightarrow> Panicked (live, mes @ [me], mesDeleteCount)
           | Some live' \<Rightarrow> meLoop grow labelMap rest (live', mes @ [me], mesDeleteCount + 1))"

text \<open>
  The loop over the match fields.  As in the source, the first slice expression is
  \<^verbatim>\<open>MatchFields[:mfIdx-mesDeleteCount]\<close>, with the counter of the other loop, and the
  second is \<^verbatim>\<open>MatchFields[mfIdx-mfsDeleteCount+1:]\<close>.
\<close>

fun mfLoop ::
  "(nat \<Rightarrow> nat \<Rightarrow> nat) \<Rightarrow> string_map \<Rightarrow> nat \<Rightarrow> (nat \<times> NodeSelectorRequirement) list
     \<Rightarrow> NodeSelectorRequirement slice \<times> NodeSelectorRequirement list \<times> nat
     \<Rightarrow> (NodeSelectorRequirement slice \<times> NodeSelectorRequirement list \<times> nat) outcome" where
  "mfLoop grow labelMap mesDeleteCount [] st = Returned st"
| "mfLoop grow labelMap mesDeleteCount ((mfIdx, mf) # rest) (live, mfs, mfsDeleteCount) =
     (if goGet labelMap (ReqKey mf) \<noteq> '''' then mfLoop grow labelMap mesDeleteCount rest (live, mfs, mfsDeleteCount)
      else case removeLive grow live (int mfIdx - int mesDeleteCount)
                                     (int mfIdx - int mfsDeleteCount + 1) of
             None \<Rightarrow> Panicked (live, mfs @ [mf], mfsDeleteCount)
           | Some live' \<Rightarrow> mfLoop grow labelMap mesDeleteCount rest (live', mfs @ [mf], mfsDeleteCount + 1))"

text \<open>\<^verbatim>\<open>DeepCopy\<close>: fresh slices that hold the visible elements.\<close>

definition DeepCopyTerm :: "NodeSelectorTerm \<Rightarrow> NodeSelectorTerm" where
  "DeepCopyTerm t =
     \<lparr>MatchExpressions = mkSlice (elems (MatchExpressions t)),
      MatchFields = mkSlice (elems (MatchFields t))\<rparr>"

definition DeepCopySelector :: "NodeSelectorT \<Rightarrow> NodeSelectorT" where
  "DeepCopySelector r = \<lparr>NodeSelectorTerms = map DeepCopyTerm (NodeSelectorTerms r)\<rparr>"

text \<open>
  The loop over the terms of the copy.  The state is the live term list
  \<^verbatim>\<open>required.NodeSelectorTerms\<close>, edited at \<open>termIdx\<close>, and the backup list
  \<^verbatim>\<open>nodeSelectorTerm\<close>.  The copy is as long as the live list, so \<open>termIdx\<close> is always in
  range; were it not, indexing would panic.
\<close>

fun termLoop ::
  "(nat \<Rightarrow> nat \<Rightarrow> nat) \<Rightarrow> string_map \<Rightarrow> (nat \<times> NodeSelectorTerm) list
     \<Rightarrow> NodeSelectorTerm list \<times> NodeSelectorTerm list
     \<Rightarrow> (NodeSelectorTerm list \<times> NodeSelectorTerm list) outcome" where
  "termLoop grow labelMap [] st = Returned st"
| "termLoop grow labelMap ((termIdx, term) # rest) (live, nodeSelectorTerm) =
     (if length live \<le> termIdx then Panicked (live, nodeSelectorTerm)
      else
        case meLoop grow labelMap (enumerate 0 (elems (MatchExpressions term)))
               (MatchExpressions (live ! termIdx), [], 0) of
          Panicked (me', mes, mesDeleteCount) \<Rightarrow>
            Panicked (live[termIdx := (live ! termIdx)\<lparr>MatchExpressions := me'\<rparr>], nodeSelectorTerm)
        | Returned (me', mes, mesDeleteCount) \<Rightarrow>
            (let live1 = live[termIdx := (live ! termIdx)\<lparr>MatchExpressions := me'\<rparr>] in
             case mfLoop grow labelMap mesDeleteCount (enumerate 0 (elems (MatchFields term)))
                    (MatchFields (live1 ! termIdx), [], 0) of
               Panicked (mf', mfs, mfsDeleteCount) \<Rightarrow>
                 Panicked (live1[termIdx := (live1 ! termIdx)\<lparr>MatchFields := mf'\<rparr>], nodeSelectorTerm)
             | Returned (mf', mfs, mfsDeleteCount) \<Rightarrow>
                 termLoop grow labelMap rest
                   (live1[termIdx := (live1 ! termIdx)\<lparr>MatchFields := mf'\<rparr>],
                    if length mfs \<noteq> 0 \<or> length mes \<noteq> 0
                    then nodeSelectorTerm
                           @ [\<lparr>MatchExpressions = mkSlice mes, MatchFields = mkSlice mfs\<rparr>]
                    else nodeSelectorTerm)))"

text \<open>
  \<^verbatim>\<open>injectAffinity\<close> edits the affinity it is given and returns the backup affinity; the
  result is the pair of the two (the backup \<open>None\<close> for nil).
\<close>

definition injectAffinity ::
  "(nat \<Rightarrow> nat \<Rightarrow> nat) \<Rightarrow> AffinityT \<Rightarrow> string list \<Rightarrow> (AffinityT \<times> AffinityT option) outcome" where
  "injectAffinity grow affinity ignoreLabels =
     (let labelMap = buildLabelMap ignoreLabels in
      case NodeAffinity affinity of
        None \<Rightarrow> Returned (affinity, None)
      | Some na \<Rightarrow>
          (case RequiredDuringSchedulingIgnoredDuringExecution na of
             None \<Rightarrow> Returned (affinity, None)
           | Some required \<Rightarrow>
               (let requiredCopy = DeepCopySelector required in
                case termLoop grow labelMap (enumerate 0 (NodeSelectorTerms requiredCopy))
                       (NodeSelectorTerms required, []) of
                  Panicked (live, nodeSelectorTerm) \<Rightarrow>
                    Panicked
                      (affinity\<lparr>NodeAffinity := Some (na\<lparr>RequiredDuringSchedulingIgnoredDuringExecution :=
                          Some (required\<lparr>NodeSelectorTerms := live\<rparr>)\<rparr>)\<rparr>, None)
                | Returned (live, nodeSelectorTerm) \<Rightarrow>
                    (let filteredTerms =
                           filter (\<lambda>term. \<not> (slen (MatchFields term) = 0 \<and> slen (MatchExpressions term) = 0)) live;
                         required' = (if length filteredTerms = 0 then None
                                      else Some (required\<lparr>NodeSelectorTerms := filteredTerms\<rparr>))
                     in Returned
                          (affinity\<lparr>NodeAffinity :=
                              Some (na\<lparr>RequiredDuringSchedulingIgnoredDuringExecution := required'\<rparr>)\<rparr>,
                           if length nodeSelectorTerm = 0 then None
                           else Some \<lparr>NodeAffinity =
                                        Some \<lparr>RequiredDuringSchedulingIgnoredDuringExecution =
                                                Some \<lparr>NodeSelectorTerms = nodeSelectorTerm\<rparr>,
                                              PreferredDuringSchedulingIgnoredDuringExecution = []\<rparr>,
                                      PodAffinity = None, PodAntiAffinity = None\<rparr>)))))"

text \<open>Concrete affinities, for evaluating the function.\<close>

definition reqOn :: "string \<Rightarrow> NodeSelectorRequirement" where
  "reqOn k = \<lparr>ReqKey = k, ReqOperator = ''In'', ReqValues = [''x'']\<rparr>"

definition nodeAffinityOf :: "NodeSelectorTerm list \<Rightarrow> AffinityT" where
  "nodeAffinityOf terms =
     \<lparr>NodeAffinity = Some \<lparr>RequiredDuringSchedulingIgnoredDuringExecution =
                              Some \<lparr>NodeSelectorTerms = terms\<rparr>,
                            PreferredDuringSchedulingIgnoredDuringExecution = []\<rparr>,
      PodAffinity = None, PodAntiAffinity = None\<rparr>"

text \<open>
  A growth policy for the concrete evaluations: doubling, or the length needed when that is
  more.  It stands in for the policy of the Go runtime, which also rounds the capacity up to
  a size class; no evaluation below outgrows a capacity, and the general statements hold for
  every policy.
\<close>

definition doublingGrow :: "nat \<Rightarrow> nat \<Rightarrow> nat" where
  "doublingGrow oldCap needed = max needed (2 * oldCap)"

section \<open>The constraint rewriter\<close>

text \<open>
  Modelled from the spec: the type \<^verbatim>\<open>util.ClustersNodeSelection\<close> is not in
  \<^verbatim>\<open>hook.go\<close>.  The spec describes the backup payload as a record of the node selector,
  the affinity and the tolerations, and the composite literal in \<^verbatim>\<open>inject\<close> names these
  three fields.
\<close>

record ClustersNodeSelection =
  cnsNodeSelector :: string_map
  cnsAffinity :: "AffinityT option"
  cnsTolerations :: "Toleration list option"

text \<open>
  What \<^verbatim>\<open>hook.go\<close> calls but does not define, taken as parameters: the JSON codec
  (\<open>jsonUnmarshal\<close> gives the error message or the pod, \<open>jsonMarshal\<close> gives \<open>None\<close> on
  an error), the growth policy of \<^verbatim>\<open>append\<close>, and the functions of package
  \<^verbatim>\<open>util\<close>.  The frozen-node cache \<^verbatim>\<open>freezeCache\<close> is a value of type \<open>'c\<close> passed
  through \<^verbatim>\<open>mutate\<close>; \<open>freezeCacheAdd node ref\<close> and \<open>GetFreezeNodes ref\<close> are its two
  methods.  \<open>CreateJSONPatch\<close> returns the patch and the error, either of which may be nil.
\<close>

record 'c collaborators =
  jsonUnmarshal :: "string \<Rightarrow> string + Pod"
  jsonMarshal :: "ClustersNodeSelection \<Rightarrow> string option"
  growslice :: "nat \<Rightarrow> nat \<Rightarrow> nat"
  IsVirtualPod :: "Pod \<Rightarrow> bool"
  freezeCacheAdd :: "string \<Rightarrow> string \<Rightarrow> 'c \<Rightarrow> 'c"
  GetFreezeNodes :: "string \<Rightarrow> 'c \<Rightarrow> string list"
  ReplacePodNodeNameNodeAffinity :: "AffinityT option \<Rightarrow> string \<Rightarrow> string list \<Rightarrow> AffinityT option"
  CreateJSONPatch :: "Pod \<Rightarrow> Pod \<Rightarrow> string option \<times> string option"

definition skipInject :: "Pod \<Rightarrow> bool" where
  "skipInject pod =
     ((case NodeSelector (Spec pod) of None \<Rightarrow> 0 | Some m \<Rightarrow> length m) = 0
      \<and> Affinity (Spec pod) = None
      \<and> Tolerations (Spec pod) = None)"

text \<open>
  \<^verbatim>\<open>inject\<close> edits the pod in place; the result is the pod as the call leaves it.  The
  affinity is rewritten first, so a panic there leaves everything else as it was.
\<close>

definition inject :: "('c, 'x) collaborators_scheme \<Rightarrow> Pod \<Rightarrow> string list \<Rightarrow> Pod outcome" where
  "inject X pod ignoreKeys =
     (if skipInject pod then Returned pod
      else
        case (case Affinity (Spec pod) of
                None \<Rightarrow> Returned (None, None)
              | Some a \<Rightarrow>
                  (case injectAffinity (growslice X) a ignoreKeys of
                     Returned (a', backup) \<Rightarrow> Returned (Some a', backup)
                   | Panicked (a', backup) \<Rightarrow> Panicked (Some a', backup))) of
          Panicked (liveAffinity, affinity) \<Rightarrow>
            Panicked (pod\<lparr>Spec := (Spec pod)\<lparr>Affinity := liveAffinity\<rparr>\<rparr>)
        | Returned (liveAffinity, affinity) \<Rightarrow>
            (case (case NodeSelector (Spec pod) of
                     None \<Rightarrow> (None, [])
                   | Some m \<Rightarrow> (case injectNodeSelector m ignoreKeys of
                                 (live, final) \<Rightarrow> (Some live, final))) of
               (liveSelector, nodeSelector) \<Rightarrow>
                 (let pod1 = pod\<lparr>Spec := (Spec pod)\<lparr>Affinity := liveAffinity,
                                                      NodeSelector := liveSelector\<rparr>\<rparr>;
                      cns = \<lparr>cnsNodeSelector = nodeSelector, cnsAffinity = affinity,
                             cnsTolerations = Tolerations (Spec pod1)\<rparr>
                  in case jsonMarshal X cns of
                       None \<Rightarrow> Returned pod1
                     | Some cnsByte \<Rightarrow>
                         (let annotations = (case Annotations pod1 of None \<Rightarrow> [] | Some m \<Rightarrow> m);
                              pod2 = pod1\<lparr>Annotations := Some (AList.update SelectorKey cnsByte annotations)\<rparr>
                          in Returned (pod2\<lparr>Spec := (Spec pod2)\<lparr>Tolerations :=
                                                 Some (getPodTolerations pod2)\<rparr>\<rparr>)))))"

section \<open>The volume-affinity resolver\<close>

record webhookServer =
  ignoreSelectorKeys :: "string list"
  pvcLister :: "string \<Rightarrow> string \<Rightarrow> PersistentVolumeClaimT option"

text \<open>
  \<open>pvcLister whsvr ns name\<close> is \<^verbatim>\<open>whsvr.pvcLister.PersistentVolumeClaims(ns).Get(name)\<close>,
  with \<open>None\<close> for an error.
\<close>

definition getNodeNameFromPVC :: "'w webhookServer_scheme \<Rightarrow> string \<Rightarrow> string \<Rightarrow> string" where
  "getNodeNameFromPVC whsvr ns pvcName =
     (case pvcLister whsvr ns pvcName of
        None \<Rightarrow> ''''
      | Some pvc \<Rightarrow> (case ClaimAnnotations pvc of
                      None \<Rightarrow> ''''
                    | Some m \<Rightarrow> goGet m SelectedNodeKey))"

fun volumeLoop :: "'w webhookServer_scheme \<Rightarrow> Pod \<Rightarrow> Volume list \<Rightarrow> Pod" where
  "volumeLoop whsvr pod [] = pod"
| "volumeLoop whsvr pod (volume # rest) =
     (case PersistentVolumeClaim volume of
        None \<Rightarrow> volumeLoop whsvr pod rest
      | Some pvcSource \<Rightarrow>
          (let nodeName = getNodeNameFromPVC whsvr (Namespace pod) (ClaimName pvcSource) in
           if length nodeName \<noteq> 0 then pod\<lparr>Spec := (Spec pod)\<lparr>NodeName := nodeName\<rparr>\<rparr>
           else volumeLoop whsvr pod rest))"

definition trySetNodeName :: "'w webhookServer_scheme \<Rightarrow> Pod \<Rightarrow> Pod" where
  "trySetNodeName whsvr pod =
     (case Volumes (Spec pod) of
        None \<Rightarrow> pod
      | Some volumes \<Rightarrow> volumeLoop whsvr pod volumes)"

section \<open>The admission decision\<close>

record AdmissionRequest =
  Kind :: string
  Operation :: string
  ObjectRaw :: string

record Status =
  Code :: int
  Message :: string

record AdmissionResponse =
  Allowed :: bool
  Result :: "Status option"
  Patch :: "string option"
  PatchType :: "string option"

definition Create :: string where
  "Create = ''CREATE''"

definition Update :: string where
  "Update = ''UPDATE''"

definition PatchTypeJSONPatch :: string where
  "PatchTypeJSONPatch = ''JSONPatch''"

definition shouldSkip :: "('c, 'x) collaborators_scheme \<Rightarrow> Pod \<Rightarrow> bool" where
  "shouldSkip X pod =
     (if Namespace pod = ''kube-system'' then True
      else case Labels pod of
             None \<Rightarrow> False
           | Some labels \<Rightarrow>
               (if goGet labels CreatedbyDescheduler = ''true'' then True
                else if \<not> IsVirtualPod X pod then True
                else False))"

definition getOwnerRef :: "Pod \<Rightarrow> string" where
  "getOwnerRef pod = (case OwnerReferences pod of [] \<Rightarrow> '''' | r # rest \<Rightarrow> UID r)"

text \<open>The cache after \<^verbatim>\<open>setUnschedulableNodes\<close>.\<close>

definition setUnschedulableNodes :: "('c, 'x) collaborators_scheme \<Rightarrow> string \<Rightarrow> Pod \<Rightarrow> 'c \<Rightarrow> 'c" where
  "setUnschedulableNodes X ref pod cache =
     (if length ref = 0 then cache
      else
        (let node = (case Annotations pod of None \<Rightarrow> '''' | Some m \<Rightarrow> goGet m ''unschedulable-node'')
         in if length node > 0 then freezeCacheAdd X node ref cache else cache))"

definition getUnschedulableNodes :: "('c, 'x) collaborators_scheme \<Rightarrow> string \<Rightarrow> Pod \<Rightarrow> 'c \<Rightarrow> string list" where
  "getUnschedulableNodes X ref pod cache =
     (if length ref = 0 then []
      else if length (NodeName (Spec pod)) \<noteq> 0 then []
      else GetFreezeNodes X ref cache)"

text \<open>\<^verbatim>\<open>pod.DeepCopy()\<close>: the only cells that can be shared are those of the slices.\<close>

definition DeepCopyAffinity :: "AffinityT \<Rightarrow> AffinityT" where
  "DeepCopyAffinity a =
     a\<lparr>NodeAffinity :=
         map_option
           (\<lambda>na. \<lparr>RequiredDuringSchedulingIgnoredDuringExecution =
                    map_option DeepCopySelector (RequiredDuringSchedulingIgnoredDuringExecution na),
                  PreferredDuringSchedulingIgnoredDuringExecution =
                    map (\<lambda>p. p\<lparr>Preference := DeepCopyTerm (Preference p)\<rparr>)
                      (PreferredDuringSchedulingIgnoredDuringExecution na)\<rparr>)
           (NodeAffinity a)\<rparr>"

definition DeepCopyPod :: "Pod \<Rightarrow> Pod" where
  "DeepCopyPod pod = pod\<lparr>Spec := (Spec pod)\<lparr>Affinity := map_option DeepCopyAffinity (Affinity (Spec pod))\<rparr>\<rparr>"

text \<open>
  \<^verbatim>\<open>mutate\<close> gives the response, or \<open>None\<close> when a panic of \<^verbatim>\<open>inject\<close> ends the call
  without one, and the frozen-node cache as the call leaves it.  The clone it edits is local.
\<close>

definition mutate ::
  "('c, 'x) collaborators_scheme \<Rightarrow> 'w webhookServer_scheme \<Rightarrow> 'c \<Rightarrow> AdmissionRequest
     \<Rightarrow> AdmissionResponse option \<times> 'c" where
  "mutate X whsvr cache req =
     (if Kind req = ''Pod'' then
        (case jsonUnmarshal X (ObjectRaw req) of
           Inl err \<Rightarrow>
             (Some \<lparr>Allowed = False, Result = Some \<lparr>Code = 0, Message = err\<rparr>,
                    Patch = None, PatchType = None\<rparr>, cache)
         | Inr pod \<Rightarrow>
             (if shouldSkip X pod
              then (Some \<lparr>Allowed = True, Result = None, Patch = None, PatchType = None\<rparr>, cache)
              else
                (let ref = getOwnerRef pod; clone = DeepCopyPod pod in
                 if Operation req = Update
                 then (Some \<lparr>Allowed = True, Result = None, Patch = None, PatchType = None\<rparr>,
                       setUnschedulableNodes X ref clone cache)
                 else
                   (let clone1 =
                          (if Operation req = Create
                           then (let nodes = getUnschedulableNodes X ref clone cache in
                                 if length nodes > 0
                                 then clone\<lparr>Spec := (Spec clone)\<lparr>Affinity :=
                                        ReplacePodNodeNameNodeAffinity X (Affinity (Spec clone)) ref nodes\<rparr>\<rparr>
                                 else clone)
                           else clone)
                    in case inject X (trySetNodeName whsvr clone1) (ignoreSelectorKeys whsvr) of
                         Panicked clone2 \<Rightarrow> (None, cache)
                       | Returned clone2 \<Rightarrow>
                           (case CreateJSONPatch X pod clone2 of
                              (patch, err) \<Rightarrow>
                                (let result = (case err of
                                                 None \<Rightarrow> \<lparr>Code = 0, Message = ''''\<rparr>
                                               | Some e \<Rightarrow> \<lparr>Code = 403, Message = e\<rparr>)
                                 in (Some \<lparr>Allowed = True, Result = Some result, Patch = patch,
                                           PatchType = Some PatchTypeJSONPatch\<rparr>, cache)))))))
      else (Some \<lparr>Allowed = False, Result = None, Patch = None, PatchType = None\<rparr>, cache))"

section \<open>Stand-ins for the collaborators, for evaluating the functions\<close>

text \<open>
  Modelled from the spec: \<^verbatim>\<open>util.IsVirtualPod\<close> is not in \<^verbatim>\<open>hook.go\<close>.  The spec
  speaks of a pod that carries the virtual-pod marker label.
\<close>

definition carriesVirtualPodMarker :: "Pod \<Rightarrow> bool" where
  "carriesVirtualPodMarker pod =
     (case Labels pod of None \<Rightarrow> False | Some labels \<Rightarrow> map_of labels VirtualPodLabel \<noteq> None)"

text \<open>
  Modelled from the spec: the frozen-node registry \<^verbatim>\<open>util.UnschedulableCache\<close> is not in
  \<^verbatim>\<open>hook.go\<close>.  The spec gives its contract: \<open>record(owner, node)\<close> is an idempotent
  add of the node to the owner's set, and \<open>freezeNodes(owner)\<close> reads the set, empty for an
  unknown owner.
\<close>

type_synonym registry = "(string \<times> string list) list"

definition registryFreezeNodes :: "string \<Rightarrow> registry \<Rightarrow> string list" where
  "registryFreezeNodes ref c = (case map_of c ref of None \<Rightarrow> [] | Some nodes \<Rightarrow> nodes)"

definition registryAdd :: "string \<Rightarrow> string \<Rightarrow> registry \<Rightarrow> registry" where
  "registryAdd node ref c =
     (if node \<in> set (registryFreezeNodes ref c) then c
      else AList.update ref (registryFreezeNodes ref c @ [node]) c)"

text \<open>
  A rendering of the backup payload that keeps the selector entries, whether a backup
  affinity is present, and the keys of the tolerations; and a diff that reports whether the
  two pods differ.  The JSON parser is replaced by its result.
\<close>

definition renderCNS :: "ClustersNodeSelection \<Rightarrow> string" where
  "renderCNS c =
     ''{nodeSelector:'' @ concat (map (\<lambda>(k, v). k @ ''='' @ v @ '';'') (cnsNodeSelector c))
     @ '' affinity:'' @ (case cnsAffinity c of None \<Rightarrow> ''null'' | Some a \<Rightarrow> ''set'')
     @ '' tolerations:'' @ concat (map (\<lambda>t. Key t @ '';'') (rangeList (cnsTolerations c)))
     @ ''}''"

definition stubCollaborators :: "string + Pod \<Rightarrow> registry collaborators" where
  "stubCollaborators parsed =
     \<lparr>jsonUnmarshal = (\<lambda>raw. parsed),
      jsonMarshal = (\<lambda>cns. Some (renderCNS cns)),
      growslice = doublingGrow,
      IsVirtualPod = carriesVirtualPodMarker,
      freezeCacheAdd = registryAdd,
      GetFreezeNodes = registryFreezeNodes,
      ReplacePodNodeNameNodeAffinity = (\<lambda>affinity ref nodes. affinity),
      CreateJSONPatch = (\<lambda>original mutated. if original = mutated then (None, None)
                                              else (Some ''[patch]'', None))\<rparr>"

definition stubServer :: "(string \<Rightarrow> string \<Rightarrow> PersistentVolumeClaimT option) \<Rightarrow> webhookServer" where
  "stubServer lister = \<lparr>ignoreSelectorKeys = [''gpu''], pvcLister = lister\<rparr>"

definition noClaims :: "string \<Rightarrow> string \<Rightarrow> PersistentVolumeClaimT option" where
  "noClaims ns name = None"

definition podRequest :: "string \<Rightarrow> AdmissionRequest" where
  "podRequest operation = \<lparr>Kind = ''Pod'', Operation = operation, ObjectRaw = ''{...}''\<rparr>"

definition allowNoPatch :: AdmissionResponse where
  "allowNoPatch = \<lparr>Allowed = True, Result = None, Patch = None, PatchType = None\<rparr>"

section \<open>Properties of the admission decision\<close>

text \<open>
  C1 (amended): for every request of kind Pod whose object parses to a pod that is in
  namespace kube-system, or that has a label map in which the descheduler-created label is
  "true" or which does not make it a virtual pod, mutate returns allowed=true with no patch
  (and leaves the registry alone).  A pod with no label map at all is not covered: unless it
  is in kube-system it is not skipped.
\<close>

theorem C1_skip_allows_without_patch:
  assumes "Kind req = ''Pod''"
    and "jsonUnmarshal X (ObjectRaw req) = Inr pod"
    and "Namespace pod = ''kube-system''
         \<or> (\<exists>labels. Labels pod = Some labels
               \<and> (goGet labels CreatedbyDescheduler = ''true'' \<or> \<not> IsVirtualPod X pod))"
  shows "mutate X whsvr cache req = (Some allowNoPatch, cache)"
proof -
  have "shouldSkip X pod"
    using assms(3) by (auto simp: shouldSkip_def)
  then show ?thesis
    using assms(1,2) by (simp add: mutate_def allowNoPatch_def)
qed

theorem C1_skip_allows_without_patch_witness:
  "mutate (stubCollaborators (Inr ((podWith None)\<lparr>Labels := Some [(''app'', ''web'')]\<rparr>)))
          (stubServer noClaims) [] (podRequest Create)
   = (Some allowNoPatch, [])"
proof -
  have k: "Kind (podRequest Create) = ''Pod''" by (simp add: podRequest_def)
  have u: "jsonUnmarshal (stubCollaborators (Inr ((podWith None)\<lparr>Labels := Some [(''app'', ''web'')]\<rparr>)))
             (ObjectRaw (podRequest Create)) = Inr ((podWith None)\<lparr>Labels := Some [(''app'', ''web'')]\<rparr>)"
    by (simp add: stubCollaborators_def)
  have s: "Namespace ((podWith None)\<lparr>Labels := Some [(''app'', ''web'')]\<rparr>) = ''kube-system''
         \<or> (\<exists>labels. Labels ((podWith None)\<lparr>Labels := Some [(''app'', ''web'')]\<rparr>) = Some labels
               \<and> (goGet labels CreatedbyDescheduler = ''true''
                  \<or> \<not> IsVirtualPod (stubCollaborators (Inr ((podWith None)\<lparr>Labels := Some [(''app'', ''web'')]\<rparr>)))
                        ((podWith None)\<lparr>Labels := Some [(''app'', ''web'')]\<rparr>)))"
    by (simp add: stubCollaborators_def carriesVirtualPodMarker_def VirtualPodLabel_def)
  show ?thesis
    by (rule C1_skip_allows_without_patch [OF k u s])
qed

text \<open>
  C1 as stated fails: a pod without labels does not carry the virtual-pod marker, yet on
  CREATE it is rewritten and the response carries a patch.
\<close>

theorem C1_counterexample:
  "\<not> carriesVirtualPodMarker (podWith (Some []))
   \<and> fst (mutate (stubCollaborators (Inr (podWith (Some [])))) (stubServer noClaims) []
            (podRequest Create))
     = Some \<lparr>Allowed = True, Result = Some \<lparr>Code = 0, Message = ''''\<rparr>,
             Patch = Some ''[patch]'', PatchType = Some ''JSONPatch''\<rparr>"
  by (simp add: carriesVirtualPodMarker_def podWith_def mutate_def stubCollaborators_def
      podRequest_def shouldSkip_def Create_def Update_def getOwnerRef_def
      getUnschedulableNodes_def DeepCopyPod_def trySetNodeName_def inject_def skipInject_def
      stubServer_def PatchTypeJSONPatch_def)

text \<open>The non-empty value of the pod's "unschedulable-node" annotation, if it has one.\<close>

definition unschedulableNodeOf :: "Pod \<Rightarrow> string option" where
  "unschedulableNodeOf pod =
     (case Annotations pod of
        None \<Rightarrow> None
      | Some m \<Rightarrow> (case map_of m ''unschedulable-node'' of
                    None \<Rightarrow> None
                  | Some node \<Rightarrow> if node = '''' then None else Some node))"

text \<open>
  C7: for every UPDATE request on an eligible pod (kind Pod, object parsed, not skipped),
  mutate returns allowed=true with no patch, and the registry after the call is the registry
  before it with (owner, node) added exactly when the owner identifier is non-empty and the
  annotations hold an "unschedulable-node" entry with a non-empty value; otherwise the
  registry is unchanged.  The response and the registry are all that mutate gives back.
\<close>

theorem C7_update_records_frozen_node:
  assumes "Kind req = ''Pod''"
    and "jsonUnmarshal X (ObjectRaw req) = Inr pod"
    and "\<not> shouldSkip X pod"
    and "Operation req = Update"
  shows "mutate X whsvr cache req =
           (Some allowNoPatch,
            case unschedulableNodeOf pod of
              None \<Rightarrow> cache
            | Some node \<Rightarrow> if getOwnerRef pod \<noteq> '''' then freezeCacheAdd X node (getOwnerRef pod) cache
                           else cache)"
  using assms
  by (auto simp: mutate_def allowNoPatch_def setUnschedulableNodes_def unschedulableNodeOf_def
      DeepCopyPod_def goGet_def Let_def split: option.splits)

theorem C7_update_records_frozen_node_witness:
  "mutate (stubCollaborators (Inr ((podWith None)\<lparr>Annotations := Some [(''unschedulable-node'', ''node-7'')],
                                                   OwnerReferences := [\<lparr>UID = ''u1''\<rparr>]\<rparr>)))
          (stubServer noClaims) [] (podRequest Update)
   = (Some allowNoPatch, [(''u1'', [''node-7''])])"
proof -
  let ?pod = "(podWith None)\<lparr>Annotations := Some [(''unschedulable-node'', ''node-7'')],
                             OwnerReferences := [\<lparr>UID = ''u1''\<rparr>]\<rparr>"
  have k: "Kind (podRequest Update) = ''Pod''" by (simp add: podRequest_def)
  have u: "jsonUnmarshal (stubCollaborators (Inr ?pod)) (ObjectRaw (podRequest Update)) = Inr ?pod"
    by (simp add: stubCollaborators_def)
  have s: "\<not> shouldSkip (stubCollaborators (Inr ?pod)) ?pod"
    by (simp add: shouldSkip_def podWith_def)
  have p: "Operation (podRequest Update) = Update" by (simp add: podRequest_def)
  show ?thesis
    using C7_update_records_frozen_node [OF k u s p, of "stubServer noClaims" "[]"]
    by (simp add: unschedulableNodeOf_def getOwnerRef_def stubCollaborators_def registryAdd_def
        registryFreezeNodes_def)
qed

text \<open>
  C8 (amended): the response has allowed=false exactly when the resource kind is not "Pod"
  or the object of a Pod request does not parse; such a response is always produced and
  carries no patch.  Nothing else denies: whenever a response is produced for a Pod request
  whose object parses, it has allowed=true, whatever the claim lookup and the diff do.
\<close>

theorem C8_denial_cases:
  "(Kind req \<noteq> ''Pod'' \<or> isl (jsonUnmarshal X (ObjectRaw req)) \<longrightarrow>
      (\<exists>r. mutate X whsvr cache req = (Some r, cache) \<and> \<not> Allowed r \<and> Patch r = None))
   \<and> (Kind req = ''Pod'' \<and> \<not> isl (jsonUnmarshal X (ObjectRaw req)) \<longrightarrow>
      (\<forall>r cache'. mutate X whsvr cache req = (Some r, cache') \<longrightarrow> Allowed r))"
proof (intro conjI impI)
  assume "Kind req \<noteq> ''Pod'' \<or> isl (jsonUnmarshal X (ObjectRaw req))"
  then show "\<exists>r. mutate X whsvr cache req = (Some r, cache) \<and> \<not> Allowed r \<and> Patch r = None"
    by (cases "jsonUnmarshal X (ObjectRaw req)") (auto simp: mutate_def)
next
  assume a: "Kind req = ''Pod'' \<and> \<not> isl (jsonUnmarshal X (ObjectRaw req))"
  then obtain pod where p: "jsonUnmarshal X (ObjectRaw req) = Inr pod"
    by (cases "jsonUnmarshal X (ObjectRaw req)") auto
  show "\<forall>r cache'. mutate X whsvr cache req = (Some r, cache') \<longrightarrow> Allowed r"
    using a p
    by (auto simp: mutate_def Let_def split: if_splits outcome.splits prod.splits)
qed

theorem C8_denial_cases_witness:
  "isl (jsonUnmarshal (stubCollaborators (Inl ''unexpected end of JSON input'')) (ObjectRaw (podRequest Create)))
   \<and> (\<exists>r. mutate (stubCollaborators (Inl ''unexpected end of JSON input'')) (stubServer noClaims) []
             (podRequest Create) = (Some r, []) \<and> \<not> Allowed r \<and> Patch r = None)"
proof -
  have i: "isl (jsonUnmarshal (stubCollaborators (Inl ''unexpected end of JSON input''))
                  (ObjectRaw (podRequest Create)))"
    by (simp add: stubCollaborators_def)
  show ?thesis
    using i C8_denial_cases [of "podRequest Create" "stubCollaborators (Inl ''unexpected end of JSON input'')"
        "stubServer noClaims" "[]"]
    by blast
qed

text \<open>
  C8 as stated fails: a request of kind Pod whose object does not parse is answered with
  allowed=false.
\<close>

theorem C8_counterexample:
  "Kind (podRequest Create) = ''Pod''
   \<and> fst (mutate (stubCollaborators (Inl ''unexpected end of JSON input'')) (stubServer noClaims) []
            (podRequest Create))
     = Some \<lparr>Allowed = False, Result = Some \<lparr>Code = 0, Message = ''unexpected end of JSON input''\<rparr>,
             Patch = None, PatchType = None\<rparr>"
  by (simp add: mutate_def stubCollaborators_def podRequest_def)

section \<open>Properties of the volume-affinity resolver\<close>

text \<open>
  The node a volume selects: the value of the selected-node annotation of its claim, when the
  volume has a claim source, the claim is found, it has annotations, and the annotation is
  there with a non-empty value.
\<close>

definition selectedNode :: "'w webhookServer_scheme \<Rightarrow> string \<Rightarrow> Volume \<Rightarrow> string option" where
  "selectedNode whsvr ns volume =
     (case PersistentVolumeClaim volume of
        None \<Rightarrow> None
      | Some pvcSource \<Rightarrow>
          (case pvcLister whsvr ns (ClaimName pvcSource) of
             None \<Rightarrow> None
           | Some pvc \<Rightarrow>
               (case ClaimAnnotations pvc of
                  None \<Rightarrow> None
                | Some m \<Rightarrow>
                    (case map_of m SelectedNodeKey of
                       None \<Rightarrow> None
                     | Some node \<Rightarrow> if node = '''' then None else Some node))))"

lemma volumeLoop_first_selected:
  "volumeLoop whsvr pod volumes =
     (case List.map_filter (selectedNode whsvr (Namespace pod)) volumes of
        [] \<Rightarrow> pod
      | node # others \<Rightarrow> pod\<lparr>Spec := (Spec pod)\<lparr>NodeName := node\<rparr>\<rparr>)"
proof (induction volumes)
  case Nil
  show ?case by simp
next
  case (Cons volume rest)
  show ?case
    using Cons.IH
    by (auto simp: selectedNode_def getNodeNameFromPVC_def goGet_def Let_def
        split: option.splits)
qed

text \<open>
  C9 (amended): for every pod, the resolver goes through the volumes in order and sets the
  node name to the selected node of the first volume that selects one; the volumes after that
  one are not consulted.  A volume without a claim source, or whose lookup fails (claim not
  found, no annotations, annotation absent or empty), is passed over and the scan goes on to
  the next volume.  When no volume selects a node, or the pod has no volumes, the pod is
  unchanged.  The resolver always returns, without an error.
\<close>

theorem C9_first_selected_node_wins:
  "trySetNodeName whsvr pod =
     (case List.map_filter (selectedNode whsvr (Namespace pod)) (rangeList (Volumes (Spec pod))) of
        [] \<Rightarrow> pod
      | node # others \<Rightarrow> pod\<lparr>Spec := (Spec pod)\<lparr>NodeName := node\<rparr>\<rparr>)
   \<and> (selectedNode whsvr (Namespace pod) volume = Some node
        \<and> List.map_filter (selectedNode whsvr (Namespace pod)) before = []
        \<and> Volumes (Spec pod) = Some (before @ volume # after)
      \<longrightarrow> trySetNodeName whsvr pod = pod\<lparr>Spec := (Spec pod)\<lparr>NodeName := node\<rparr>\<rparr>)"
proof -
  have 1: "trySetNodeName whsvr pod =
     (case List.map_filter (selectedNode whsvr (Namespace pod)) (rangeList (Volumes (Spec pod))) of
        [] \<Rightarrow> pod
      | node # others \<Rightarrow> pod\<lparr>Spec := (Spec pod)\<lparr>NodeName := node\<rparr>\<rparr>)"
    by (cases "Volumes (Spec pod)")
       (simp_all add: trySetNodeName_def rangeList_def volumeLoop_first_selected)
  have 2: "List.map_filter f (xs @ ys) = List.map_filter f xs @ List.map_filter f ys" for f :: "Volume \<Rightarrow> string option" and xs ys
    by (simp add: List.map_filter_def)
  show ?thesis
    unfolding 1 by (auto simp: rangeList_def 2)
qed

definition claimVolume :: "string \<Rightarrow> Volume" where
  "claimVolume name = \<lparr>VolumeName = name, PersistentVolumeClaim = Some \<lparr>ClaimName = name\<rparr>\<rparr>"

definition oneClaim :: "string \<Rightarrow> string \<Rightarrow> string \<Rightarrow> string \<Rightarrow> PersistentVolumeClaimT option" where
  "oneClaim claim node ns name =
     (if ns = ''default'' \<and> name = claim
      then Some \<lparr>ClaimAnnotations = Some [(SelectedNodeKey, node)]\<rparr>
      else None)"

definition podWithVolumes :: "Volume list \<Rightarrow> Pod" where
  "podWithVolumes volumes = (podWith None)\<lparr>Spec := (Spec (podWith None))\<lparr>Volumes := Some volumes\<rparr>\<rparr>"

theorem C9_first_selected_node_wins_witness:
  "NodeName (Spec (trySetNodeName (stubServer (oneClaim ''data'' ''node-1''))
                     (podWithVolumes [claimVolume ''data'', claimVolume ''logs''])))
   = ''node-1''"
  using C9_first_selected_node_wins [of "stubServer (oneClaim ''data'' ''node-1'')"
      "podWithVolumes [claimVolume ''data'', claimVolume ''logs'']"]
  by (simp add: podWithVolumes_def podWith_def rangeList_def selectedNode_def
      claimVolume_def stubServer_def oneClaim_def)

text \<open>
  C9 as stated fails: the first volume with a claim source does not end the scan.  Its
  lookup fails here, and the node name is still set, from the second volume.
\<close>

theorem C9_counterexample:
  "pvcLister (stubServer (oneClaim ''data'' ''node-1'')) ''default'' ''logs'' = None
   \<and> NodeName (Spec (podWithVolumes [claimVolume ''logs'', claimVolume ''data''])) = ''''
   \<and> NodeName (Spec (trySetNodeName (stubServer (oneClaim ''data'' ''node-1''))
                       (podWithVolumes [claimVolume ''logs'', claimVolume ''data''])))
     = ''node-1''"
  by (simp add: podWithVolumes_def podWith_def trySetNodeName_def claimVolume_def stubServer_def
      oneClaim_def getNodeNameFromPVC_def goGet_def)

section \<open>Properties of the constraint rewriter\<close>

subsection \<open>The affinity rewrite on concrete terms\<close>

text \<open>The terms of the live required node affinity, none when any level is nil.\<close>

definition liveRequiredTerms :: "AffinityT option \<Rightarrow> NodeSelectorTerm list option" where
  "liveRequiredTerms affinity =
     (case affinity of
        None \<Rightarrow> None
      | Some a \<Rightarrow> (case NodeAffinity a of
                    None \<Rightarrow> None
                  | Some na \<Rightarrow> map_option NodeSelectorTerms (RequiredDuringSchedulingIgnoredDuringExecution na)))"

lemmas affinity_eval =
  injectAffinity_def nodeAffinityOf_def buildLabelMap_def goGet_def DeepCopySelector_def
  DeepCopyTerm_def mkSlice_def elems_def cap_def removeLive_def sliceUpto_def sliceOnward_def
  appendSlice_def reqOn_def Let_def

definition termOf :: "string list \<Rightarrow> string list \<Rightarrow> NodeSelectorTerm" where
  "termOf expressionKeys fieldKeys =
     \<lparr>MatchExpressions = mkSlice (map reqOn expressionKeys),
      MatchFields = mkSlice (map reqOn fieldKeys)\<rparr>"

text \<open>
  C3: the rewrite is meant to remove from each live term exactly the match-expressions and
  match-fields whose key is not in the ignore set.  It does not.  For a term with the
  match-expression zone and the match-field metadata.name, neither of them ignored, the call
  panics: the expression is removed, \<^verbatim>\<open>mesDeleteCount\<close> is 1, and the first slice bound
  of the field deletion is 0 - 1.  For a term with two match-fields to remove and no
  expression, the second field stays on the live term, so the term is not dropped and the
  live required affinity is not cleared.
\<close>

theorem C3_match_field_left_on_live_term:
  "(case injectAffinity doublingGrow (nodeAffinityOf [termOf [''zone''] [''metadata.name'']]) [''gpu''] of
      Returned s \<Rightarrow> False
    | Panicked s \<Rightarrow> True)
   \<and> (case injectAffinity doublingGrow (nodeAffinityOf [termOf [] [''metadata.name'', ''metadata.uid'']]) [''gpu''] of
      Returned (live, backup) \<Rightarrow>
        map_option (map (\<lambda>term. elems (MatchFields term)))
          (liveRequiredTerms (Some live)) = Some [[reqOn ''metadata.uid'']]
    | Panicked s \<Rightarrow> False)"
  by (simp add: affinity_eval termOf_def liveRequiredTerms_def)

subsection \<open>What the rewriter leaves alone\<close>

text \<open>
  \<^verbatim>\<open>injectAffinity\<close> writes one field, and \<^verbatim>\<open>inject\<close> never assigns the pod's
  affinity.
\<close>

lemma injectAffinity_frame:
  "PodAffinity (fst (outcomeState (injectAffinity grow a ks))) = PodAffinity a
   \<and> PodAntiAffinity (fst (outcomeState (injectAffinity grow a ks))) = PodAntiAffinity a
   \<and> (NodeAffinity (fst (outcomeState (injectAffinity grow a ks))) = None \<longleftrightarrow> NodeAffinity a = None)
   \<and> map_option PreferredDuringSchedulingIgnoredDuringExecution
         (NodeAffinity (fst (outcomeState (injectAffinity grow a ks))))
       = map_option PreferredDuringSchedulingIgnoredDuringExecution (NodeAffinity a)"
  by (simp add: injectAffinity_def Let_def split: option.splits outcome.splits prod.splits)

lemma inject_affinity_cases:
  "Affinity (Spec (outcomeState (inject X pod ks))) =
     (if skipInject pod then Affinity (Spec pod)
      else map_option (\<lambda>a. fst (outcomeState (injectAffinity (growslice X) a ks))) (Affinity (Spec pod)))"
  by (simp add: inject_def Let_def split: option.splits outcome.splits prod.splits)

definition podWithConstraints ::
  "string_map option \<Rightarrow> AffinityT option \<Rightarrow> Toleration list option \<Rightarrow> Pod" where
  "podWithConstraints selector affinity tolerations =
     \<lparr>Name = ''web-0'', Namespace = ''default'', Labels = None, Annotations = None,
      OwnerReferences = [],
      Spec = \<lparr>NodeName = '''', NodeSelector = selector, Affinity = affinity,
              Tolerations = tolerations, Volumes = None\<rparr>\<rparr>"

definition backupAnnotation :: "Pod \<Rightarrow> string option" where
  "backupAnnotation pod = (case Annotations pod of None \<Rightarrow> None | Some m \<Rightarrow> map_of m SelectorKey)"

lemmas inject_eval =
  inject_def skipInject_def podWithConstraints_def stubCollaborators_def renderCNS_def
  injectNodeSelector_def getPodTolerations_def addDefaultPodTolerations_def desiredMap_def
  desiredMapGet_def rangeList_def TaintNodeNotReady_def TaintNodeUnreachable_def
  TolerationOpExists_def TaintEffectNoExecute_def SelectorKey_def

text \<open>
  C10 (amended): for every pod that has an affinity (so for every pod whose affinity has pod
  affinity or pod anti-affinity set), the constraint rewriter leaves the pod's affinity
  non-nil, with the same pod affinity and pod anti-affinity, the same preferred node-affinity
  terms and a node affinity that is nil exactly when it was; within the affinity only the
  required node-affinity field can differ.  This holds for the pod as the call leaves it,
  whether it returns or panics, and also when every required term is stripped.  Outside the
  affinity the rewriter does modify the live pod: the node selector, the annotations and the
  tolerations.
\<close>

theorem C10_affinity_frame:
  assumes "Affinity (Spec pod) = Some a"
  shows "\<exists>a'. Affinity (Spec (outcomeState (inject X pod ignoreKeys))) = Some a'
           \<and> PodAffinity a' = PodAffinity a
           \<and> PodAntiAffinity a' = PodAntiAffinity a
           \<and> (NodeAffinity a' = None \<longleftrightarrow> NodeAffinity a = None)
           \<and> map_option PreferredDuringSchedulingIgnoredDuringExecution (NodeAffinity a')
               = map_option PreferredDuringSchedulingIgnoredDuringExecution (NodeAffinity a)"
proof (cases "skipInject pod")
  case True
  then show ?thesis using assms by (simp add: inject_affinity_cases)
next
  case False
  then show ?thesis
    using assms injectAffinity_frame [of "growslice X" a ignoreKeys]
    by (simp add: inject_affinity_cases)
qed

theorem C10_affinity_frame_witness:
  "Affinity (Spec (outcomeState
     (inject (stubCollaborators (Inl ''''))
        (podWithConstraints None
           (Some ((nodeAffinityOf [termOf [''zone''] []])
                    \<lparr>PodAffinity := Some [\<lparr>TopologyKey = ''kubernetes.io/hostname'', Namespaces = []\<rparr>]\<rparr>))
           None)
        [''gpu''])))
   = Some \<lparr>NodeAffinity = Some \<lparr>RequiredDuringSchedulingIgnoredDuringExecution = None,
                                 PreferredDuringSchedulingIgnoredDuringExecution = []\<rparr>,
           PodAffinity = Some [\<lparr>TopologyKey = ''kubernetes.io/hostname'', Namespaces = []\<rparr>],
           PodAntiAffinity = None\<rparr>"
proof -
  let ?a = "(nodeAffinityOf [termOf [''zone''] []])
              \<lparr>PodAffinity := Some [\<lparr>TopologyKey = ''kubernetes.io/hostname'', Namespaces = []\<rparr>]\<rparr>"
  have h: "Affinity (Spec (podWithConstraints None (Some ?a) None)) = Some ?a"
    by (simp add: podWithConstraints_def)
  show ?thesis
    using C10_affinity_frame [OF h, of "stubCollaborators (Inl '''')" "[''gpu'']"]
    by (simp add: inject_eval affinity_eval termOf_def doublingGrow_def)
qed

text \<open>
  C10 as stated fails in its last clause: the required node-affinity field is not the only
  field of the live pod that is modified.  On a pod with pod affinity set, no tolerations and
  no annotations, the rewriter also sets the two default tolerations and writes the backup
  annotation.
\<close>

definition hostnameAffinityPod :: Pod where
  "hostnameAffinityPod =
     podWithConstraints None
       (Some ((nodeAffinityOf [termOf [''zone''] []])
                \<lparr>PodAffinity := Some [\<lparr>TopologyKey = ''kubernetes.io/hostname'', Namespaces = []\<rparr>]\<rparr>))
       None"

theorem C10_counterexample:
  "map_option PodAffinity (Affinity (Spec hostnameAffinityPod))
     = Some (Some [\<lparr>TopologyKey = ''kubernetes.io/hostname'', Namespaces = []\<rparr>])
   \<and> Tolerations (Spec hostnameAffinityPod) = None
   \<and> Tolerations (Spec (outcomeState (inject (stubCollaborators (Inl '''')) hostnameAffinityPod [''gpu''])))
       = Some [canonicalDefault TaintNodeNotReady, canonicalDefault TaintNodeUnreachable]
   \<and> Annotations hostnameAffinityPod = None
   \<and> Annotations (outcomeState (inject (stubCollaborators (Inl '''')) hostnameAffinityPod [''gpu'']))
       = Some [(SelectorKey, ''{nodeSelector: affinity:set tolerations:}'')]"
  by (simp add: hostnameAffinityPod_def inject_eval affinity_eval termOf_def doublingGrow_def
      canonicalDefault_def)

subsection \<open>A second pass over a rewritten pod\<close>

text \<open>Normalizing the tolerations twice is normalizing them once.\<close>

lemma wellKnown_taints [simp]: "wellKnown TaintNodeNotReady" "wellKnown TaintNodeUnreachable"
  by (simp_all add: wellKnown_def)

lemma Key_canonicalDefault [simp]: "Key (canonicalDefault k) = k"
  by (simp add: canonicalDefault_def)

lemma normalizeSpec_has_taints:
  "TaintNodeNotReady \<in> set (map Key (normalizeSpec ts))"
  "TaintNodeUnreachable \<in> set (map Key (normalizeSpec ts))"
  by (auto simp: normalizeSpec_def image_iff)

lemma normalizeSpec_idem: "normalizeSpec (normalizeSpec ts) = normalizeSpec ts"
proof -
  let ?f = "\<lambda>t. if wellKnown (Key t) then canonicalDefault (Key t) else t"
  have "normalizeSpec (normalizeSpec ts) = map ?f (normalizeSpec ts)"
    using normalizeSpec_has_taints [of ts] by (simp add: normalizeSpec_def [of "normalizeSpec ts"])
  also have "\<dots> = normalizeSpec ts"
    by (simp add: normalizeSpec_def [of ts])
  finally show ?thesis .
qed

text \<open>A loop that meets only ignored keys removes nothing and cannot panic.\<close>

lemma meLoop_all_ignored:
  "\<forall>e \<in> set es. goGet lm (ReqKey (snd e)) \<noteq> '''' \<Longrightarrow> meLoop grow lm es st = Returned st"
proof (induction es arbitrary: st)
  case Nil
  show ?case by simp
next
  case (Cons e es)
  obtain i q where e: "e = (i, q)" by (cases e)
  obtain live mes n where st: "st = (live, mes, n)" by (cases st)
  show ?case using Cons unfolding e st by simp
qed

lemma mfLoop_all_ignored:
  "\<forall>e \<in> set es. goGet lm (ReqKey (snd e)) \<noteq> '''' \<Longrightarrow> mfLoop grow lm m es st = Returned st"
proof (induction es arbitrary: st)
  case Nil
  show ?case by simp
next
  case (Cons e es)
  obtain i q where e: "e = (i, q)" by (cases e)
  obtain live mfs n where st: "st = (live, mfs, n)" by (cases st)
  show ?case using Cons unfolding e st by simp
qed

lemma snd_enumerate_in_set: "e \<in> set (enumerate n xs) \<Longrightarrow> snd e \<in> set xs"
  by (metis image_eqI list.set_map map_snd_enumerate)

definition termIgnored :: "string_map \<Rightarrow> NodeSelectorTerm \<Rightarrow> bool" where
  "termIgnored lm t =
     (\<forall>q \<in> set (elems (MatchExpressions t) @ elems (MatchFields t)). goGet lm (ReqKey q) \<noteq> '''')"

lemma termLoop_all_ignored:
  "\<forall>e \<in> set es. fst e < length live \<and> termIgnored lm (snd e) \<Longrightarrow>
   termLoop grow lm es (live, bk) = Returned (live, bk)"
proof (induction es)
  case Nil
  show ?case by simp
next
  case (Cons e es)
  obtain i t where e: "e = (i, t)" by (cases e)
  have i: "i < length live" and t: "termIgnored lm t"
    using Cons.prems by (simp_all add: e)
  have me: "meLoop grow lm (enumerate 0 (elems (MatchExpressions t))) st = Returned st" for st
    using t by (intro meLoop_all_ignored) (auto simp: termIgnored_def dest: snd_enumerate_in_set)
  have mf: "mfLoop grow lm m (enumerate 0 (elems (MatchFields t))) st = Returned st" for st m
    using t by (intro mfLoop_all_ignored) (auto simp: termIgnored_def dest: snd_enumerate_in_set)
  show ?case
    using Cons i unfolding e by (simp add: me mf)
qed

text \<open>
  The two facts about the live required terms on which the second pass rests: every key left
  is ignored, and (as after any pass that returns) no term is empty and the term list is not
  empty.
\<close>

definition onlyIgnoredKeys :: "string list \<Rightarrow> AffinityT option \<Rightarrow> bool" where
  "onlyIgnoredKeys ignoreKeys affinity =
     (case liveRequiredTerms affinity of
        None \<Rightarrow> True
      | Some terms \<Rightarrow> list_all (termIgnored (buildLabelMap ignoreKeys)) terms)"

definition noEmptyTerm :: "AffinityT option \<Rightarrow> bool" where
  "noEmptyTerm affinity =
     (case liveRequiredTerms affinity of
        None \<Rightarrow> True
      | Some terms \<Rightarrow>
          terms \<noteq> []
          \<and> list_all (\<lambda>term. \<not> (slen (MatchFields term) = 0 \<and> slen (MatchExpressions term) = 0)) terms)"

lemma injectAffinity_Returned_noEmptyTerm:
  "injectAffinity grow a ks = Returned (a', b) \<Longrightarrow> noEmptyTerm (Some a')"
  by (auto simp: injectAffinity_def Let_def noEmptyTerm_def liveRequiredTerms_def list_all_iff
      split: option.splits outcome.splits prod.splits if_splits)

lemma elems_mkSlice [simp]: "elems (mkSlice xs) = xs"
  by (simp add: elems_def mkSlice_def)

lemma termIgnored_DeepCopyTerm [simp]: "termIgnored lm (DeepCopyTerm t) = termIgnored lm t"
  by (simp add: termIgnored_def DeepCopyTerm_def)

lemma termLoop_copy_all_ignored:
  assumes "list_all (termIgnored lm) terms"
  shows "termLoop grow lm (enumerate 0 (map DeepCopyTerm terms)) (terms, []) = Returned (terms, [])"
proof (rule termLoop_all_ignored, rule ballI)
  fix e assume e: "e \<in> set (enumerate 0 (map DeepCopyTerm terms))"
  then have "fst e < length terms" and "snd e = map DeepCopyTerm terms ! fst e"
    by (auto simp: in_set_enumerate_eq)
  then show "fst e < length terms \<and> termIgnored lm (snd e)"
    using assms by (simp add: list_all_length)
qed

lemma injectAffinity_second_pass:
  assumes "onlyIgnoredKeys ks (Some a)" and "noEmptyTerm (Some a)"
  shows "injectAffinity grow a ks = Returned (a, None)"
proof (cases "liveRequiredTerms (Some a)")
  case None
  then show ?thesis
    by (auto simp: injectAffinity_def liveRequiredTerms_def split: option.splits)
next
  case (Some terms)
  then obtain na required where na: "NodeAffinity a = Some na"
    and r: "RequiredDuringSchedulingIgnoredDuringExecution na = Some required"
    and t: "NodeSelectorTerms required = terms"
    by (auto simp: liveRequiredTerms_def split: option.splits)
  have ign: "list_all (termIgnored (buildLabelMap ks)) terms"
    using assms(1) Some by (simp add: onlyIgnoredKeys_def)
  have ne: "terms \<noteq> []"
    and full: "filter (\<lambda>term. \<not> (slen (MatchFields term) = 0 \<and> slen (MatchExpressions term) = 0)) terms = terms"
    using assms(2) Some by (auto simp: noEmptyTerm_def list_all_iff)
  have loop: "termLoop grow (buildLabelMap ks) (enumerate 0 (map DeepCopyTerm terms)) (terms, [])
                = Returned (terms, [])"
    by (rule termLoop_copy_all_ignored [OF ign])
  have "required\<lparr>NodeSelectorTerms := terms\<rparr> = required"
    using t by simp
  moreover have "a\<lparr>NodeAffinity := Some (na\<lparr>RequiredDuringSchedulingIgnoredDuringExecution := Some required\<rparr>)\<rparr> = a"
    using na r by simp
  ultimately show ?thesis
    using ne full by (simp add: injectAffinity_def Let_def na r t DeepCopySelector_def loop)
qed

text \<open>
  The same for the node selector, and the shape of a pod after a first pass that returned
  with its payload serialized.
\<close>

definition selectorKept :: "string list \<Rightarrow> string_map option \<Rightarrow> bool" where
  "selectorKept ignoreKeys selector =
     (case selector of None \<Rightarrow> True | Some m \<Rightarrow> list_all (\<lambda>(k, v). kept ignoreKeys k) m)"

lemma injectNodeSelector_kept:
  assumes "list_all (\<lambda>(k, v). kept ks k) m"
  shows "injectNodeSelector m ks = (m, [])"
proof -
  have "\<forall>k \<in> fst ` set m. goGet (buildLabelMap ks) k \<noteq> ''''"
    using assms by (auto simp: list_all_iff goGet_buildLabelMap)
  then show ?thesis
    by (simp add: injectNodeSelector_def selectorLoop_all_kept)
qed

lemma injectNodeSelector_result_kept:
  "list_all (\<lambda>(k, v). kept ks k) (fst (injectNodeSelector m ks))"
  by (auto simp: injectNodeSelector_live list_all_iff)

lemma inject_on_rewritten:
  assumes tol: "Tolerations (Spec p) = Some (normalizeSpec ts)"
    and ne: "noEmptyTerm (Affinity (Spec p))"
    and ign: "onlyIgnoredKeys ks (Affinity (Spec p))"
    and sel: "selectorKept ks (NodeSelector (Spec p))"
    and js: "jsonMarshal X \<lparr>cnsNodeSelector = [], cnsAffinity = None,
                            cnsTolerations = Tolerations (Spec p)\<rparr> = Some j"
  shows "inject X p ks =
           Returned (p\<lparr>Annotations :=
                        Some (AList.update SelectorKey j (case Annotations p of None \<Rightarrow> [] | Some m \<Rightarrow> m))\<rparr>)"
proof -
  have skip: "\<not> skipInject p"
    using tol by (simp add: skipInject_def)
  have aff: "(case Affinity (Spec p) of
                None \<Rightarrow> Returned (None, None)
              | Some a \<Rightarrow>
                  (case injectAffinity (growslice X) a ks of
                     Returned (a', backup) \<Rightarrow> Returned (Some a', backup)
                   | Panicked (a', backup) \<Rightarrow> Panicked (Some a', backup)))
             = Returned (Affinity (Spec p), None)"
  proof (cases "Affinity (Spec p)")
    case None
    then show ?thesis by simp
  next
    case (Some a)
    then show ?thesis
      using injectAffinity_second_pass [of ks a "growslice X"] ne ign by simp
  qed
  have nsel: "(case NodeSelector (Spec p) of
                 None \<Rightarrow> (None, [])
               | Some m \<Rightarrow> (case injectNodeSelector m ks of (live, final) \<Rightarrow> (Some live, final)))
              = (NodeSelector (Spec p), [])"
  proof (cases "NodeSelector (Spec p)")
    case None
    then show ?thesis by simp
  next
    case (Some m)
    then show ?thesis
      using sel injectNodeSelector_kept [of ks m] by (simp add: selectorKept_def)
  qed
  have same: "p\<lparr>Spec := (Spec p)\<lparr>Affinity := Affinity (Spec p), NodeSelector := NodeSelector (Spec p)\<rparr>\<rparr> = p"
    by simp
  have tols: "getPodTolerations (p\<lparr>Annotations := A\<rparr>) = normalizeSpec ts" for A
    by (simp add: getPodTolerations_normalizeSpec tol rangeList_def normalizeSpec_idem)
  have fin: "(Spec p)\<lparr>Tolerations := Some (normalizeSpec ts)\<rparr> = Spec p"
    using tol by simp
  show ?thesis
    unfolding inject_def using skip
    by (simp add: aff nsel same js tols fin Let_def)
qed

lemma inject_first_pass:
  assumes skip: "\<not> skipInject pod"
    and js: "\<forall>c. jsonMarshal X c \<noteq> None"
    and ret: "inject X pod ks = Returned p1"
  shows "\<exists>ts. Tolerations (Spec p1) = Some (normalizeSpec ts)"
    and "noEmptyTerm (Affinity (Spec p1))"
    and "selectorKept ks (NodeSelector (Spec p1))"
proof -
  obtain la b where aff: "(case Affinity (Spec pod) of
                None \<Rightarrow> Returned (None, None)
              | Some a \<Rightarrow>
                  (case injectAffinity (growslice X) a ks of
                     Returned (a', backup) \<Rightarrow> Returned (Some a', backup)
                   | Panicked (a', backup) \<Rightarrow> Panicked (Some a', backup)))
             = Returned (la, b)"
    using ret skip by (auto simp: inject_def split: outcome.splits)
  have la: "noEmptyTerm la"
  proof (cases "Affinity (Spec pod)")
    case None
    then show ?thesis using aff by (auto simp: noEmptyTerm_def liveRequiredTerms_def)
  next
    case (Some a)
    then show ?thesis
      using aff injectAffinity_Returned_noEmptyTerm [of "growslice X" a ks]
      by (auto split: outcome.splits)
  qed
  obtain ls fin where nsel: "(case NodeSelector (Spec pod) of
                 None \<Rightarrow> (None, [])
               | Some m \<Rightarrow> (case injectNodeSelector m ks of (live, final) \<Rightarrow> (Some live, final)))
              = (ls, fin)"
    by (cases "(case NodeSelector (Spec pod) of
                 None \<Rightarrow> (None, [])
               | Some m \<Rightarrow> (case injectNodeSelector m ks of (live, final) \<Rightarrow> (Some live, final)))")
  have ls: "selectorKept ks ls"
  proof (cases "NodeSelector (Spec pod)")
    case None
    then show ?thesis using nsel by (auto simp: selectorKept_def)
  next
    case (Some m)
    then show ?thesis
      using nsel injectNodeSelector_result_kept [of ks m]
      by (auto simp: selectorKept_def split: prod.splits)
  qed
  obtain j where j: "jsonMarshal X \<lparr>cnsNodeSelector = fin, cnsAffinity = b,
                            cnsTolerations = Tolerations (Spec pod)\<rparr> = Some j"
    using js by (metis option.exhaust)
  have p1: "Spec p1 = (Spec pod)\<lparr>Affinity := la, NodeSelector := ls,
               Tolerations := Some (normalizeSpec (rangeList (Tolerations (Spec pod))))\<rparr>"
    using ret skip
    by (auto simp: inject_def aff nsel j Let_def getPodTolerations_normalizeSpec)
  show "\<exists>ts. Tolerations (Spec p1) = Some (normalizeSpec ts)"
    using p1 by auto
  show "noEmptyTerm (Affinity (Spec p1))"
    using p1 la by simp
  show "selectorKept ks (NodeSelector (Spec p1))"
    using p1 ls by simp
qed

text \<open>A slice is well formed when its length does not exceed its capacity.\<close>

definition wellFormed :: "'a slice \<Rightarrow> bool" where
  "wellFormed s = (slen s \<le> length (arr s))"

text \<open>
  When no match-field has to go, the first pass does what it is meant to do: deleting in place
  with the loop's own counter removes the expression the loop is at.
\<close>

lemma removeLive_elems:
  assumes wf: "wellFormed s" and el: "elems s = pre @ x # post"
  shows "\<exists>s'. removeLive grow s (int (length pre)) (int (length pre) + 1) = Some s'
              \<and> elems s' = pre @ post \<and> wellFormed s'"
proof -
  have "length (elems s) = slen s"
    using wf by (simp add: elems_def wellFormed_def)
  then have len: "slen s = length pre + Suc (length post)"
    using el by simp
  have "take (length pre) (elems s) = take (length pre) (arr s)"
    using len by (simp add: elems_def min_def)
  then have tk: "take (length pre) (arr s) = pre"
    using el by simp
  have up: "sliceUpto s (int (length pre)) = Some (s\<lparr>slen := length pre\<rparr>)"
    using wf len by (simp add: sliceUpto_def cap_def wellFormed_def)
  have on: "sliceOnward s (int (length pre) + 1) = Some post"
    using len el by (simp add: sliceOnward_def nat_add_distrib)
  have fits: "length pre + length post \<le> cap (s\<lparr>slen := length pre\<rparr>)"
    using wf len by (simp add: cap_def wellFormed_def)
  let ?s' = "appendSlice grow (s\<lparr>slen := length pre\<rparr>) post"
  have s': "?s' = \<lparr>arr = pre @ post @ drop (length pre + length post) (arr s),
                   slen = length pre + length post\<rparr>"
    using fits by (simp add: appendSlice_def tk Let_def)
  have "removeLive grow s (int (length pre)) (int (length pre) + 1) = Some ?s'"
    by (simp add: removeLive_def up on)
  moreover have "elems ?s' = pre @ post"
    unfolding s' by (simp add: elems_def)
  moreover have "wellFormed ?s'"
    unfolding s' by (simp add: wellFormed_def)
  ultimately show ?thesis by blast
qed

lemma meLoop_removes_unignored:
  assumes "wellFormed live" and "elems live = done @ todo" and "length done + c = i"
  shows "\<exists>live'. meLoop grow lm (enumerate i todo) (live, mes, c)
                    = Returned (live', mes @ filter (\<lambda>q. goGet lm (ReqKey q) = '''') todo,
                                c + length (filter (\<lambda>q. goGet lm (ReqKey q) = '''') todo))
                 \<and> elems live' = done @ filter (\<lambda>q. goGet lm (ReqKey q) \<noteq> '''') todo
                 \<and> wellFormed live'"
  using assms
proof (induction todo arbitrary: i live mes c "done")
  case Nil
  then show ?case by simp
next
  case (Cons x todo)
  show ?case
  proof (cases "goGet lm (ReqKey x) = ''''")
    case False
    have "elems live = (done @ [x]) @ todo" using Cons.prems(2) by simp
    moreover have "length (done @ [x]) + c = Suc i" using Cons.prems(3) by simp
    ultimately show ?thesis
      using Cons.IH [of live "done @ [x]" c "Suc i" mes] Cons.prems(1) False by simp
  next
    case True
    have idx: "int i - int c = int (length done)" using Cons.prems(3) by simp
    obtain s' where rm: "removeLive grow live (int (length done)) (int (length done) + 1) = Some s'"
      and el: "elems s' = done @ todo" and wf: "wellFormed s'"
      using removeLive_elems [OF Cons.prems(1,2)] by blast
    have "length done + (c + 1) = Suc i" using Cons.prems(3) by simp
    then show ?thesis
      using Cons.IH [OF wf el, of "c + 1" "Suc i" "mes @ [x]"] True rm idx by simp
  qed
qed

text \<open>
  What the rewrite of one term achieves when no match-field has to go: the live expressions
  are the ignored ones, in their order, and the fields are as they were.
\<close>

definition expressionsStripped :: "string_map \<Rightarrow> NodeSelectorTerm \<Rightarrow> NodeSelectorTerm \<Rightarrow> bool" where
  "expressionsStripped lm t t' =
     (elems (MatchExpressions t') = filter (\<lambda>q. goGet lm (ReqKey q) \<noteq> '''') (elems (MatchExpressions t))
      \<and> wellFormed (MatchExpressions t')
      \<and> MatchFields t' = MatchFields t)"

definition fieldsIgnored :: "string_map \<Rightarrow> NodeSelectorTerm \<Rightarrow> bool" where
  "fieldsIgnored lm t =
     (wellFormed (MatchExpressions t)
      \<and> list_all (\<lambda>q. goGet lm (ReqKey q) \<noteq> '''') (elems (MatchFields t)))"

lemma termLoop_strips_expressions:
  assumes "list_all (fieldsIgnored lm) rest" and "length processed = k"
  shows "\<exists>rest' bk'. termLoop grow lm (enumerate k (map DeepCopyTerm rest)) (processed @ rest, bk)
                        = Returned (processed @ rest', bk')
                     \<and> list_all2 (expressionsStripped lm) rest rest'"
  using assms
proof (induction rest arbitrary: processed k bk)
  case Nil
  then show ?case by simp
next
  case (Cons t rest)
  have wf: "wellFormed (MatchExpressions t)"
    and fi: "list_all (\<lambda>q. goGet lm (ReqKey q) \<noteq> '''') (elems (MatchFields t))"
    using Cons.prems(1) by (simp_all add: fieldsIgnored_def)
  obtain me' where me: "meLoop grow lm (enumerate 0 (elems (MatchExpressions t))) (MatchExpressions t, [], 0)
         = Returned (me', filter (\<lambda>q. goGet lm (ReqKey q) = '''') (elems (MatchExpressions t)),
                     length (filter (\<lambda>q. goGet lm (ReqKey q) = '''') (elems (MatchExpressions t))))"
    and el: "elems me' = filter (\<lambda>q. goGet lm (ReqKey q) \<noteq> '''') (elems (MatchExpressions t))"
    and wf': "wellFormed me'"
    using meLoop_removes_unignored [OF wf, of "[]" "elems (MatchExpressions t)" 0 0 grow lm "[]"]
    by auto
  have mf: "mfLoop grow lm m (enumerate 0 (elems (MatchFields t))) st = Returned st" for m st
    using fi by (intro mfLoop_all_ignored) (auto simp: list_all_iff dest: snd_enumerate_in_set)
  let ?t' = "t\<lparr>MatchExpressions := me'\<rparr>"
  have str: "expressionsStripped lm t ?t'"
    by (simp add: expressionsStripped_def el wf')
  let ?removed = "filter (\<lambda>q. goGet lm (ReqKey q) = '''') (elems (MatchExpressions t))"
  let ?bk1 = "if length ([] :: NodeSelectorRequirement list) \<noteq> 0 \<or> length ?removed \<noteq> 0
              then bk @ [\<lparr>MatchExpressions = mkSlice ?removed, MatchFields = mkSlice []\<rparr>]
              else bk"
  have r: "list_all (fieldsIgnored lm) rest"
    using Cons.prems(1) by simp
  have l: "length (processed @ [?t']) = Suc k"
    using Cons.prems(2) by simp
  obtain rest' bk' where rec: "termLoop grow lm (enumerate (Suc k) (map DeepCopyTerm rest))
        ((processed @ [?t']) @ rest, ?bk1) = Returned ((processed @ [?t']) @ rest', bk')"
    and rel: "list_all2 (expressionsStripped lm) rest rest'"
    using Cons.IH [OF r l, of ?bk1] by blast
  have upd: "(processed @ t # rest)[k := y] = processed @ y # rest" for y
    using Cons.prems(2) by (simp add: list_update_append)
  have nth: "(processed @ y # rest) ! k = y" for y
    using Cons.prems(2) by (simp add: nth_append)
  have "termLoop grow lm (enumerate k (map DeepCopyTerm (t # rest))) (processed @ t # rest, bk)
          = Returned (processed @ ?t' # rest', bk')"
    using rec Cons.prems(2)
    by (simp add: DeepCopyTerm_def me mf upd nth Let_def)
  then show ?case
    using str rel by auto
qed

definition noFieldToRemove :: "string list \<Rightarrow> AffinityT option \<Rightarrow> bool" where
  "noFieldToRemove ignoreKeys affinity =
     (case liveRequiredTerms affinity of
        None \<Rightarrow> True
      | Some terms \<Rightarrow> list_all (fieldsIgnored (buildLabelMap ignoreKeys)) terms)"

lemma stripped_term_ignored:
  assumes "fieldsIgnored lm t" and "expressionsStripped lm t t'"
  shows "termIgnored lm t'"
  using assms by (auto simp: fieldsIgnored_def expressionsStripped_def termIgnored_def list_all_iff)

lemma stripped_terms_ignored:
  assumes "list_all2 (expressionsStripped lm) terms terms'" and "list_all (fieldsIgnored lm) terms"
  shows "list_all (termIgnored lm) terms'"
  using assms
  by (induction rule: list_all2_induct) (auto intro: stripped_term_ignored)

lemma injectAffinity_only_ignored:
  assumes "noFieldToRemove ks (Some a)"
  shows "\<exists>a' b. injectAffinity grow a ks = Returned (a', b) \<and> onlyIgnoredKeys ks (Some a')"
proof (cases "liveRequiredTerms (Some a)")
  case None
  then show ?thesis
    by (auto simp: injectAffinity_def liveRequiredTerms_def onlyIgnoredKeys_def split: option.splits)
next
  case (Some terms)
  then obtain na required where na: "NodeAffinity a = Some na"
    and r: "RequiredDuringSchedulingIgnoredDuringExecution na = Some required"
    and t: "NodeSelectorTerms required = terms"
    by (auto simp: liveRequiredTerms_def split: option.splits)
  have fi: "list_all (fieldsIgnored (buildLabelMap ks)) terms"
    using assms Some by (simp add: noFieldToRemove_def)
  obtain terms' bk' where loop: "termLoop grow (buildLabelMap ks) (enumerate 0 (map DeepCopyTerm terms)) (terms, [])
        = Returned (terms', bk')"
    and rel: "list_all2 (expressionsStripped (buildLabelMap ks)) terms terms'"
    using termLoop_strips_expressions [OF fi, of "[]" 0 grow "[]"] by auto
  have ign: "list_all (termIgnored (buildLabelMap ks)) terms'"
    by (rule stripped_terms_ignored [OF rel fi])
  then have ign': "list_all (termIgnored (buildLabelMap ks)) (filter P terms')" for P
    by (simp add: list_all_iff)
  show ?thesis
    using ign'
    by (simp add: injectAffinity_def Let_def na r t DeepCopySelector_def loop onlyIgnoredKeys_def
        liveRequiredTerms_def)
qed

lemma inject_only_ignored:
  assumes "noFieldToRemove ks (Affinity (Spec pod))"
  shows "\<exists>p1. inject X pod ks = Returned p1 \<and> onlyIgnoredKeys ks (Affinity (Spec p1))"
proof (cases "skipInject pod")
  case True
  then show ?thesis
    by (simp add: inject_def skipInject_def onlyIgnoredKeys_def liveRequiredTerms_def)
next
  case False
  show ?thesis
  proof (cases "Affinity (Spec pod)")
    case None
    then show ?thesis
      using False
      by (auto simp: inject_def Let_def onlyIgnoredKeys_def liveRequiredTerms_def
          split: option.splits prod.splits)
  next
    case (Some a)
    obtain a' b where ia: "injectAffinity (growslice X) a ks = Returned (a', b)"
      and oi: "onlyIgnoredKeys ks (Some a')"
      using injectAffinity_only_ignored [of ks a "growslice X"] assms Some by auto
    show ?thesis
      using False Some ia oi
      by (auto simp: inject_def Let_def split: option.splits prod.splits)
  qed
qed

text \<open>
  C5 (amended): take a pod on which a first pass of the constraint rewriter has returned,
  with a serializer that does not fail, and suppose the first pass left only ignored keys on
  the live required node-affinity terms (what the affinity rewrite is there to achieve, and
  what it does achieve, returning, whenever no term has a match-field to remove: lemma
  \<open>inject_only_ignored\<close>).  Then
  a second pass with the same ignore keys returns and changes nothing but the backup
  annotation: the live node selector, the live affinity and the toleration list are identical
  after one pass and after two.  The backup annotation is not stable: unless the pod had no
  constraints at all (in which case neither pass touches it), the second pass overwrites it
  with the serialization of the payload of the already rewritten pod, that is an empty
  selector, no affinity and the normalized tolerations.
\<close>

theorem C5_second_pass:
  assumes "\<forall>c. jsonMarshal X c \<noteq> None"
    and "inject X pod ignoreKeys = Returned p1"
    and "onlyIgnoredKeys ignoreKeys (Affinity (Spec p1))"
  shows "(skipInject pod \<and> inject X p1 ignoreKeys = Returned p1)
       \<or> (\<exists>j. \<not> skipInject pod
            \<and> jsonMarshal X \<lparr>cnsNodeSelector = [], cnsAffinity = None,
                               cnsTolerations = Tolerations (Spec p1)\<rparr> = Some j
            \<and> inject X p1 ignoreKeys =
                Returned (p1\<lparr>Annotations :=
                    Some (AList.update SelectorKey j
                            (case Annotations p1 of None \<Rightarrow> [] | Some m \<Rightarrow> m))\<rparr>))"
proof (cases "skipInject pod")
  case True
  then have "p1 = pod" using assms(2) by (simp add: inject_def)
  then show ?thesis using True assms(2) by simp
next
  case False
  obtain ts where ts: "Tolerations (Spec p1) = Some (normalizeSpec ts)"
    using inject_first_pass(1) [OF False assms(1,2)] by blast
  obtain j where j: "jsonMarshal X \<lparr>cnsNodeSelector = [], cnsAffinity = None,
                                    cnsTolerations = Tolerations (Spec p1)\<rparr> = Some j"
    using assms(1) by (metis option.exhaust)
  show ?thesis
    using False j
      inject_on_rewritten [OF ts inject_first_pass(2) [OF False assms(1,2)] assms(3)
        inject_first_pass(3) [OF False assms(1,2)] j]
    by blast
qed

definition zonePod :: Pod where
  "zonePod = podWithConstraints (Some [(''zone'', ''a'')]) None None"

definition zoneGpuPod :: Pod where
  "zoneGpuPod =
     podWithConstraints (Some [(''zone'', ''a''), (''gpu'', ''true'')])
       (Some (nodeAffinityOf [termOf [''zone'', ''gpu''] []])) None"

text \<open>
  \<open>zoneGpuPod\<close> after one pass with the ignore key gpu: the zone entry and the zone
  expression are gone from the live pod (the backing array of the expressions still has its
  two cells), and the two default tolerations are there.
\<close>

definition zoneGpuPodRewritten :: Pod where
  "zoneGpuPodRewritten =
     (podWithConstraints (Some [(''gpu'', ''true'')])
        (Some (nodeAffinityOf
           [\<lparr>MatchExpressions = \<lparr>arr = [reqOn ''gpu'', reqOn ''gpu''], slen = 1\<rparr>,
             MatchFields = mkSlice []\<rparr>]))
        (Some [canonicalDefault TaintNodeNotReady, canonicalDefault TaintNodeUnreachable]))
     \<lparr>Annotations := Some [(SelectorKey, ''{nodeSelector:zone=a; affinity:set tolerations:}'')]\<rparr>"

theorem C5_second_pass_witness:
  "inject (stubCollaborators (Inl '''')) zoneGpuPod [''gpu''] = Returned zoneGpuPodRewritten
   \<and> inject (stubCollaborators (Inl '''')) zoneGpuPodRewritten [''gpu'']
       = Returned (zoneGpuPodRewritten\<lparr>Annotations :=
           Some [(SelectorKey,
                  ''{nodeSelector: affinity:null tolerations:node.kubernetes.io/not-ready;node.kubernetes.io/unreachable;}'')]\<rparr>)"
proof -
  let ?X = "stubCollaborators (Inl '''') :: registry collaborators"
  have m: "\<forall>c. jsonMarshal ?X c \<noteq> None"
    by (simp add: stubCollaborators_def)
  have r: "inject ?X zoneGpuPod [''gpu''] = Returned zoneGpuPodRewritten"
    by (simp add: zoneGpuPod_def zoneGpuPodRewritten_def inject_eval affinity_eval termOf_def
        doublingGrow_def canonicalDefault_def)
  have c: "onlyIgnoredKeys [''gpu''] (Affinity (Spec zoneGpuPodRewritten))"
    by (simp add: zoneGpuPodRewritten_def podWithConstraints_def nodeAffinityOf_def
        onlyIgnoredKeys_def liveRequiredTerms_def termIgnored_def elems_def mkSlice_def reqOn_def
        buildLabelMap_def goGet_def)
  have s: "\<not> skipInject zoneGpuPod"
    by (simp add: zoneGpuPod_def skipInject_def podWithConstraints_def)
  have j: "jsonMarshal ?X \<lparr>cnsNodeSelector = [], cnsAffinity = None,
                            cnsTolerations = Tolerations (Spec zoneGpuPodRewritten)\<rparr>
             = Some ''{nodeSelector: affinity:null tolerations:node.kubernetes.io/not-ready;node.kubernetes.io/unreachable;}''"
    by (simp add: zoneGpuPodRewritten_def podWithConstraints_def stubCollaborators_def renderCNS_def
        rangeList_def canonicalDefault_def TaintNodeNotReady_def TaintNodeUnreachable_def)
  have u: "AList.update SelectorKey v (case Annotations zoneGpuPodRewritten of None \<Rightarrow> [] | Some m \<Rightarrow> m)
             = [(SelectorKey, v)]" for v
    by (simp add: zoneGpuPodRewritten_def)
  from C5_second_pass [OF m r c] s j
  have "inject ?X zoneGpuPodRewritten [''gpu''] =
          Returned (zoneGpuPodRewritten\<lparr>Annotations :=
            Some [(SelectorKey,
                   ''{nodeSelector: affinity:null tolerations:node.kubernetes.io/not-ready;node.kubernetes.io/unreachable;}'')]\<rparr>)"
    by (auto simp: u)
  with r show ?thesis by simp
qed

text \<open>
  C5 as stated fails: the second pass replaces the backup annotation.  The first pass records
  the selector entry it removed; the second pass finds nothing left to remove and records an
  empty selector, with the tolerations the first pass added.
\<close>

theorem C5_counterexample:
  "(case inject (stubCollaborators (Inl '''')) zonePod [] of
      Returned p1 \<Rightarrow>
        (case inject (stubCollaborators (Inl '''')) p1 [] of
           Returned p2 \<Rightarrow>
             backupAnnotation p1 = Some ''{nodeSelector:zone=a; affinity:null tolerations:}''
             \<and> backupAnnotation p2 =
                 Some ''{nodeSelector: affinity:null tolerations:node.kubernetes.io/not-ready;node.kubernetes.io/unreachable;}''
         | Panicked s \<Rightarrow> False)
    | Panicked s \<Rightarrow> False)"
  by (simp add: zonePod_def inject_eval buildLabelMap_def goGet_def backupAnnotation_def)

end
